theory Spec2Isabelle
  imports Main
begin

section \<open>Run-time values\<close>

text \<open>
  The payload of a stream part is typed \<^verbatim>\<open>unknown\<close> in the client and the request
  body is whatever \<^verbatim>\<open>request.json()\<close> yields, so both are modelled as JSON values.
  A cast such as \<^verbatim>\<open>delta.data as ResearchStatus\<close> is erased at run time: the field
  receives the value as it arrived.
\<close>

datatype jsvalue =
    JNull
  | JBool bool
  | JNum int
  | JStr string
  | JArr "jsvalue list"
  | JObj "(string \<times> jsvalue) list"

text \<open>\<^verbatim>\<open>{ type: string; data: unknown }\<close>, the unit written to and read from the channel.\<close>

record delta =
  type :: string
  data :: jsvalue

section \<open>Source extractor (\<^verbatim>\<open>extractSourcesFromContent\<close> of the research route)\<close>

text \<open>\<^verbatim>\<open>ResearchSource\<close> of lib/ai/research/types.\<close>

record ResearchSource =
  title :: string
  url :: string
  domain :: string

text \<open>
  The regular expression is \<^verbatim>\<open>/\[([^\]]+)\]\((https?:\/\/[^)]+)\)/g\<close>, without the
  \<^verbatim>\<open>i\<close>, \<^verbatim>\<open>s\<close> or \<^verbatim>\<open>u\<close> flags: it works on code units, is case-sensitive, and a
  negated class also matches a line break. A string is the list of its code units; HOL's
  \<open>char\<close> tells 256 of them apart, and the expression only tests for ASCII characters.

  \<^verbatim>\<open>https?:\/\/\<close> at the head of the input: the optional \<^verbatim>\<open>s\<close> is greedy, and
  giving it back never helps, since \<^verbatim>\<open>:\<close> would then have to match that \<^verbatim>\<open>s\<close>.
  The result is the matched text and the rest of the input.
\<close>

definition match_scheme :: "string \<Rightarrow> (string \<times> string) option" where
  "match_scheme s =
     (if take 8 s = ''https://'' then Some (''https://'', drop 8 s)
      else if take 7 s = ''http://'' then Some (''http://'', drop 7 s)
      else None)"

text \<open>
  One attempt of the whole expression at the head of the input. \<^verbatim>\<open>[^\]]+\<close> is greedy
  and is followed by \<^verbatim>\<open>\]\<close>: only the longest run of code units other than
  \<^verbatim>\<open>]\<close> can be followed by a \<^verbatim>\<open>]\<close>, so backtracking into the run never
  succeeds, and the run must not be empty. The same holds for \<^verbatim>\<open>[^)]+\<close> and
  \<^verbatim>\<open>\)\<close>. The result is group 1, group 2 and the input after the match.
\<close>

definition match_at :: "string \<Rightarrow> (string \<times> string \<times> string) option" where
  "match_at s =
     (case s of
        [] \<Rightarrow> None
      | c # r \<Rightarrow>
          if c \<noteq> CHR ''['' then None
          else
            let title = takeWhile (\<lambda>x. x \<noteq> CHR '']'') r;
                r1 = dropWhile (\<lambda>x. x \<noteq> CHR '']'') r
            in if title = [] then None
               else if take 2 r1 \<noteq> '']('' then None
               else
                 (case match_scheme (drop 2 r1) of
                    None \<Rightarrow> None
                  | Some (scheme, r2) \<Rightarrow>
                      let tail = takeWhile (\<lambda>x. x \<noteq> CHR '')'') r2;
                          r3 = dropWhile (\<lambda>x. x \<noteq> CHR '')'') r2
                      in if tail = [] then None
                         else (case r3 of
                                 [] \<Rightarrow> None
                               | p # r4 \<Rightarrow> Some (title, scheme @ tail, r4))))"

text \<open>A match consumes at least one code unit, so scanning on after it terminates.\<close>

lemma match_scheme_shorter: "match_scheme s = Some (sc, r) \<Longrightarrow> length r \<le> length s"
  by (auto simp: match_scheme_def split: if_splits)

lemma match_at_shorter:
  assumes "match_at s = Some (t, u, r)"
  shows "length r < length s"
proof -
  from assms obtain c r0 where s: "s = c # r0"
    by (cases s) (auto simp: match_at_def)
  let ?r1 = "dropWhile (\<lambda>x. x \<noteq> CHR '']'') r0"
  from assms s obtain sc r2 where m: "match_scheme (drop 2 ?r1) = Some (sc, r2)"
    by (auto simp: match_at_def Let_def split: if_splits option.splits)
  let ?r3 = "dropWhile (\<lambda>x. x \<noteq> CHR '')'') r2"
  from assms s m obtain p where r3: "?r3 = p # r"
    by (auto simp: match_at_def Let_def split: if_splits option.splits list.splits)
  have "length r < length ?r3" using r3 by simp
  also have "\<dots> \<le> length r2" by (rule length_dropWhile_le)
  also have "\<dots> \<le> length (drop 2 ?r1)" using m by (rule match_scheme_shorter)
  also have "\<dots> \<le> length ?r1" by simp
  also have "\<dots> \<le> length r0" by (rule length_dropWhile_le)
  finally show ?thesis using s by simp
qed

text \<open>
  \<^verbatim>\<open>content.matchAll(urlRegex)\<close>: the attempt is made at each position from left to
  right; after a match the scan resumes behind it, after a failure one code unit further.
\<close>

function matchAll :: "string \<Rightarrow> (string \<times> string) list" where
  "matchAll [] = []"
| "matchAll (c # cs) =
     (case match_at (c # cs) of
        Some (t, u, rest) \<Rightarrow> (t, u) # matchAll rest
      | None \<Rightarrow> matchAll cs)"
  by pat_completeness auto
termination
  by (relation "measure length") (auto dest: match_at_shorter)

text \<open>
  The \<^verbatim>\<open>for\<close> loop over the matches, with the set \<^verbatim>\<open>seen\<close> and the array
  \<^verbatim>\<open>sources\<close> as loop state. \<^verbatim>\<open>new URL(url).hostname\<close> belongs to the platform, so
  the parser is a parameter: \<^term>\<open>None\<close> where the constructor throws, which the
  \<^verbatim>\<open>catch\<close> swallows. The url is added to \<^verbatim>\<open>seen\<close> before it is parsed.
\<close>

fun extract_loop ::
  "(string \<Rightarrow> string option) \<Rightarrow> (string \<times> string) list \<Rightarrow> string set \<Rightarrow>
     ResearchSource list \<Rightarrow> ResearchSource list" where
  "extract_loop hostname [] seen sources = sources"
| "extract_loop hostname ((t, u) # ms) seen sources =
     (if u \<notin> seen then
        (case hostname u of
           Some h \<Rightarrow>
             extract_loop hostname ms (insert u seen)
               (sources @ [\<lparr>title = t, url = u, domain = h\<rparr>])
         | None \<Rightarrow> extract_loop hostname ms (insert u seen) sources)
      else extract_loop hostname ms seen sources)"

definition extractSourcesFromContent ::
  "(string \<Rightarrow> string option) \<Rightarrow> string \<Rightarrow> ResearchSource list" where
  "extractSourcesFromContent hostname content =
     extract_loop hostname (matchAll content) {} []"

text \<open>
  The reference algorithm in the words of the specification: for each match, try to parse
  the url and skip the match on failure; keep a set of seen urls and emit a record only on
  the first sighting, in order.
\<close>

fun spec_loop ::
  "(string \<Rightarrow> string option) \<Rightarrow> (string \<times> string) list \<Rightarrow> string set \<Rightarrow> ResearchSource list" where
  "spec_loop hostname [] seen = []"
| "spec_loop hostname ((t, u) # ms) seen =
     (case hostname u of
        None \<Rightarrow> spec_loop hostname ms seen
      | Some h \<Rightarrow>
          if u \<in> seen then spec_loop hostname ms seen
          else \<lparr>title = t, url = u, domain = h\<rparr> # spec_loop hostname ms (insert u seen))"

definition extractSources_spec :: "(string \<Rightarrow> string option) \<Rightarrow> string \<Rightarrow> ResearchSource list" where
  "extractSources_spec hostname text = spec_loop hostname (matchAll text) {}"

text \<open>
  The same result said without a loop: the records of the matches whose url parses, of
  which the first one for each url is kept.
\<close>

fun parsed :: "(string \<Rightarrow> string option) \<Rightarrow> (string \<times> string) list \<Rightarrow> ResearchSource list" where
  "parsed hostname [] = []"
| "parsed hostname ((t, u) # ms) =
     (case hostname u of
        None \<Rightarrow> parsed hostname ms
      | Some h \<Rightarrow> \<lparr>title = t, url = u, domain = h\<rparr> # parsed hostname ms)"

fun first_by_url :: "ResearchSource list \<Rightarrow> ResearchSource list" where
  "first_by_url [] = []"
| "first_by_url (r # rs) = r # first_by_url (filter (\<lambda>x. url x \<noteq> url r) rs)"

text \<open>The records whose url the loop has not seen yet; the loop invariant filters by it.\<close>

definition fresh :: "string set \<Rightarrow> ResearchSource \<Rightarrow> bool" where
  "fresh seen r = (url r \<notin> seen)"

text \<open>
  A stand-in for the platform's URL parser on the urls of the examples, for running the
  extractor on concrete inputs.
\<close>

definition sample_hostname :: "string \<Rightarrow> string option" where
  "sample_hostname u =
     (if u = ''https://x.com'' \<or> u = ''https://x.com/page'' then Some ''x.com''
      else if u = ''http://a.b'' then Some ''a.b''
      else None)"

section \<open>Research route (app/(chat)/api/research/route.ts)\<close>

subsection \<open>Request validation\<close>

text \<open>\<^verbatim>\<open>ResearchRequest\<close>; the field \<^verbatim>\<open>id\<close> is named \<open>req_id\<close> here.\<close>

record ResearchRequest =
  req_id :: string
  query :: string
  chatId :: string

text \<open>
  \<^verbatim>\<open>researchRequestSchema.parse\<close> for the schema
  \<^verbatim>\<open>z.object({ id: z.string().uuid(), query: z.string().min(1).max(2000), chatId: z.string().uuid() })\<close>:
  the input must be an object whose three keys hold strings that pass their checks; other
  keys are dropped. \<^term>\<open>None\<close> stands for the thrown validation error. The test behind
  \<^verbatim>\<open>.uuid()\<close> belongs to the validation library and is a parameter; the pairs of a
  \<^term>\<open>JObj\<close> are the object's own properties, each key once.
\<close>

definition researchRequestSchema_parse ::
  "(string \<Rightarrow> bool) \<Rightarrow> jsvalue \<Rightarrow> ResearchRequest option" where
  "researchRequestSchema_parse uuid json =
     (case json of
        JObj props \<Rightarrow>
          (case (map_of props ''id'', map_of props ''query'', map_of props ''chatId'') of
             (Some (JStr i), Some (JStr q), Some (JStr c)) \<Rightarrow>
               if uuid i \<and> 1 \<le> length q \<and> length q \<le> 2000 \<and> uuid c
               then Some \<lparr>req_id = i, query = q, chatId = c\<rparr>
               else None
           | _ \<Rightarrow> None)
      | _ \<Rightarrow> None)"

text \<open>
  The incoming request, as far as the handler reads it: the result of
  \<^verbatim>\<open>request.json()\<close>, \<^term>\<open>None\<close> when the body is not JSON and the call rejects.
\<close>

record request =
  body :: "jsvalue option"

subsection \<open>Collaborators and effects\<close>

text \<open>The session that \<^verbatim>\<open>auth()\<close> resolves to; the handler reads \<^verbatim>\<open>session?.user\<close>.\<close>

record session =
  user :: "string option"

datatype js_error = JsError string

text \<open>\<^verbatim>\<open>getQueryRewriterModel()\<close>, \<^verbatim>\<open>getWebSearchModel()\<close>, \<^verbatim>\<open>getSynthesisModel()\<close>.\<close>

datatype model = QueryRewriter | WebSearch | Synthesis

text \<open>
  A message as the host hands it to \<^verbatim>\<open>onFinish\<close>, and as \<^verbatim>\<open>saveMessages\<close> receives
  it. The fields carry a prefix because several of the source's types share field names.
\<close>

record UIMessage =
  msg_id :: string
  msg_role :: string
  msg_parts :: "jsvalue list"

record DBMessage =
  db_id :: string
  db_chatId :: string
  db_role :: string
  db_parts :: "jsvalue list"
  db_attachments :: "jsvalue list"
  db_createdAt :: nat

text \<open>
  The stream that \<^verbatim>\<open>streamText(...).toUIMessageStream(...)\<close> yields: its text deltas,
  and the error it ends with when the provider fails after the call has returned.
\<close>

datatype text_stream = TextStream (deltas: "string list") (failure: "js_error option")

text \<open>Everything the handler does to the outside, in the order it does it.\<close>

datatype effect =
    AuthCall
  | Invoke model string
  | Write delta
  | Merge text_stream
  | ConsoleError js_error
  | StreamError string
  | SaveMessages "DBMessage list"

text \<open>
  What the handler is given from outside: the uuid test of the validation library, the
  answer of \<^verbatim>\<open>auth()\<close>, the model calls (model, system instruction if any, prompt;
  \<^term>\<open>Inl\<close> when the call itself throws), the platform's URL parser, the messages the
  host assembles from what was streamed, and the clock read by \<^verbatim>\<open>new Date()\<close> for
  the message at each index.
\<close>

record env =
  env_uuid :: "string \<Rightarrow> bool"
  env_auth :: "session option"
  generateText :: "model \<Rightarrow> string option \<Rightarrow> string \<Rightarrow> js_error + string"
  streamText :: "model \<Rightarrow> string option \<Rightarrow> string \<Rightarrow> js_error + text_stream"
  URL_hostname :: "string \<Rightarrow> string option"
  finishedMessages :: "effect list \<Rightarrow> UIMessage list"
  clock :: "nat \<Rightarrow> nat"

subsection \<open>Prompts (lib/ai/research/prompts)\<close>

definition prompts_queryRewriter :: string where
  "prompts_queryRewriter =
     ''Expand this research question. Add relevant context and related terms. Output only the expanded query, nothing else.''"

definition prompts_webSearch :: string where
  "prompts_webSearch = ''Research this topic thoroughly:''"

definition prompts_synthesis :: string where
  "prompts_synthesis =
     ''Synthesize these search results into a clear answer. Use markdown formatting. Cite sources with [title](url) format.''"

definition nl :: string where
  "nl = [CHR 0x0A]"

text \<open>\<^verbatim>\<open>Array.prototype.join\<close> on strings.\<close>

fun join :: "string \<Rightarrow> string list \<Rightarrow> string" where
  "join sep [] = []"
| "join sep [x] = x"
| "join sep (x # y # ys) = x @ sep @ join sep (y # ys)"

text \<open>The template literal passed to \<^verbatim>\<open>streamText\<close> as prompt.\<close>

definition synthesis_prompt ::
  "string \<Rightarrow> string \<Rightarrow> string \<Rightarrow> ResearchSource list \<Rightarrow> string" where
  "synthesis_prompt q rewrittenQuery searchContent srcs =
     ''Original Question: '' @ q @ nl @ nl @
     ''Expanded Research Query: '' @ rewrittenQuery @ nl @ nl @
     ''Web Search Findings:'' @ nl @ searchContent @ nl @ nl @
     ''Available Sources:'' @ nl @
     join nl (map (\<lambda>s. ''- '' @ title s @ '': '' @ url s) srcs) @ nl @ nl @
     ''Please synthesize a comprehensive answer:''"

subsection \<open>The stream's \<^verbatim>\<open>execute\<close> callback\<close>

text \<open>The array of source objects as it is written to the channel.\<close>

definition sources_json :: "ResearchSource list \<Rightarrow> jsvalue" where
  "sources_json srcs =
     JArr (map (\<lambda>s. JObj [(''title'', JStr (title s)), (''url'', JStr (url s)),
                           (''domain'', JStr (domain s))]) srcs)"

definition status_part :: "string \<Rightarrow> delta" where
  "status_part phase = \<lparr>type = ''data-research-status'', data = JStr phase\<rparr>"

text \<open>
  The body of the \<^verbatim>\<open>try\<close> block: the effects up to the point where it ends or a model
  call throws, and how it ended. \<^verbatim>\<open>streamText\<close> returns its stream at once and
  \<^verbatim>\<open>dataStream.merge\<close> is called and not awaited; the two writes after it follow in the
  same block, whatever becomes of the stream.
\<close>

definition try_block :: "env \<Rightarrow> string \<Rightarrow> effect list \<times> (js_error + unit)" where
  "try_block e q =
     (let t1 = [Write (status_part ''rewriting-query''), Invoke QueryRewriter q]
      in case generateText e QueryRewriter (Some prompts_queryRewriter) q of
           Inl err \<Rightarrow> (t1, Inl err)
         | Inr rewrittenQuery \<Rightarrow>
             let t2 = t1 @
                   [Write \<lparr>type = ''data-research-query-rewritten'', data = JStr rewrittenQuery\<rparr>,
                    Write (status_part ''searching''),
                    Invoke WebSearch (prompts_webSearch @ '' '' @ rewrittenQuery)]
             in case generateText e WebSearch None (prompts_webSearch @ '' '' @ rewrittenQuery) of
                  Inl err \<Rightarrow> (t2, Inl err)
                | Inr searchContent \<Rightarrow>
                    let srcs = extractSourcesFromContent (URL_hostname e) searchContent;
                        prompt = synthesis_prompt q rewrittenQuery searchContent srcs;
                        t3 = t2 @
                          [Write \<lparr>type = ''data-research-search-results'', data = JStr searchContent\<rparr>,
                           Write \<lparr>type = ''data-research-sources'', data = sources_json srcs\<rparr>,
                           Write (status_part ''synthesizing''),
                           Write \<lparr>type = ''data-research-synthesis-start'', data = JNull\<rparr>,
                           Invoke Synthesis prompt]
                    in case streamText e Synthesis (Some prompts_synthesis) prompt of
                         Inl err \<Rightarrow> (t3, Inl err)
                       | Inr stream \<Rightarrow>
                           (t3 @
                              [Merge stream,
                               Write (status_part ''complete''),
                               Write \<lparr>type = ''data-research-complete'', data = JNull\<rparr>],
                            Inr ()))"

text \<open>
  \<^verbatim>\<open>execute\<close>: the \<^verbatim>\<open>catch\<close> logs the error, writes the error status and throws the
  error again.
\<close>

definition execute :: "env \<Rightarrow> string \<Rightarrow> effect list \<times> (js_error + unit)" where
  "execute e q =
     (case try_block e q of
        (t, Inl err) \<Rightarrow> (t @ [ConsoleError err, Write (status_part ''error'')], Inl err)
      | (t, Inr u) \<Rightarrow> (t, Inr u))"

text \<open>\<^verbatim>\<open>onFinish\<close>: one batch write of the finished messages, if there are any.\<close>

definition onFinish :: "env \<Rightarrow> string \<Rightarrow> UIMessage list \<Rightarrow> effect list" where
  "onFinish e chat msgs =
     (if length msgs > 0 then
        [SaveMessages
           (map (\<lambda>(i, msg).
                   \<lparr>db_id = msg_id msg, db_chatId = chat, db_role = msg_role msg,
                    db_parts = msg_parts msg, db_attachments = [],
                    db_createdAt = clock e i\<rparr>)
                (enumerate 0 msgs))]
      else [])"

subsection \<open>The host's stream and the error response\<close>

text \<open>\<^verbatim>\<open>onError\<close>: the text the client is shown for any error.\<close>

definition onError_text :: string where
  "onError_text = ''Research failed. Please try again.''"

text \<open>The errors that end the streams merged into the channel.\<close>

fun stream_failures :: "effect list \<Rightarrow> js_error list" where
  "stream_failures [] = []"
| "stream_failures (Merge s # es) =
     (case failure s of None \<Rightarrow> stream_failures es | Some err \<Rightarrow> err # stream_failures es)"
| "stream_failures (x # es) = stream_failures es"

text \<open>
  \<^verbatim>\<open>createUIMessageStream\<close> belongs to the host framework (package \<^verbatim>\<open>ai\<close>) and is
  not part of the sources; this is how the host treats the three callbacks the route
  hands it. It runs \<^verbatim>\<open>execute\<close>. An error that \<^verbatim>\<open>execute\<close> throws, or that ends a
  merged stream, becomes an error part carrying the text of \<^verbatim>\<open>onError\<close>. When the
  stream has ended, after an error as well, the host calls \<^verbatim>\<open>onFinish\<close> with the
  messages it assembled from the stream: the route's \<^verbatim>\<open>onFinish\<close> is given no sign of
  a failure and tests none.
\<close>

definition createUIMessageStream ::
  "effect list \<times> (js_error + unit) \<Rightarrow> (UIMessage list \<Rightarrow> effect list) \<Rightarrow>
     (effect list \<Rightarrow> UIMessage list) \<Rightarrow> effect list" where
  "createUIMessageStream run finish assemble =
     (case run of
        (t, Inr u) \<Rightarrow>
          (let streamed = t @ (if stream_failures t = [] then [] else [StreamError onError_text])
           in streamed @ finish (assemble streamed))
      | (t, Inl err) \<Rightarrow>
          (let streamed = t @ [StreamError onError_text]
           in streamed @ finish (assemble streamed)))"

text \<open>
  What the handler answers: an error response with its HTTP status and error code, or
  the streamed response of \<^verbatim>\<open>createUIMessageStreamResponse\<close>.
\<close>

datatype response = ErrorResponse nat string | StreamResponse

text \<open>The two error codes the route constructs a \<^verbatim>\<open>ChatSDKError\<close> with.\<close>

datatype error_code = bad_request_api | unauthorized_chat

fun code_text :: "error_code \<Rightarrow> string" where
  "code_text bad_request_api = ''bad_request:api''"
| "code_text unauthorized_chat = ''unauthorized:chat''"

text \<open>
  Modelled from the spec: \<^verbatim>\<open>ChatSDKError\<close> and its \<^verbatim>\<open>toResponse\<close> (lib/errors) are not
  part of the sources. The specification says of the route: "Validation failure \<rightarrow> HTTP
  400 with a structured error body" and "Unauthenticated caller \<rightarrow> HTTP 401"; the
  structured body is represented by the error code it carries.
\<close>

fun ChatSDKError_toResponse :: "error_code \<Rightarrow> response" where
  "ChatSDKError_toResponse bad_request_api = ErrorResponse 400 (code_text bad_request_api)"
| "ChatSDKError_toResponse unauthorized_chat = ErrorResponse 401 (code_text unauthorized_chat)"

subsection \<open>The handler\<close>

text \<open>
  \<^verbatim>\<open>POST\<close>: parse and validate the body, then consult the session, then open the
  stream. The result is the list of effects and the response.
\<close>

definition has_user :: "session option \<Rightarrow> bool" where
  "has_user s = (case s of None \<Rightarrow> False | Some x \<Rightarrow> user x \<noteq> None)"

definition POST :: "env \<Rightarrow> request \<Rightarrow> effect list \<times> response" where
  "POST e req =
     (case (case body req of
              None \<Rightarrow> None
            | Some json \<Rightarrow> researchRequestSchema_parse (env_uuid e) json) of
        None \<Rightarrow> ([], ChatSDKError_toResponse bad_request_api)
      | Some requestBody \<Rightarrow>
          if \<not> has_user (env_auth e)
          then ([AuthCall], ChatSDKError_toResponse unauthorized_chat)
          else
            (AuthCall #
               createUIMessageStream (execute e (query requestBody))
                 (onFinish e (chatId requestBody)) (finishedMessages e),
             StreamResponse))"

text \<open>Reading a list of effects: the parts written, and the models invoked.\<close>

fun writes :: "effect list \<Rightarrow> delta list" where
  "writes [] = []"
| "writes (Write d # es) = d # writes es"
| "writes (x # es) = writes es"

fun invoked :: "effect list \<Rightarrow> model list" where
  "invoked [] = []"
| "invoked (Invoke m p # es) = m # invoked es"
| "invoked (x # es) = invoked es"

fun is_SaveMessages :: "effect \<Rightarrow> bool" where
  "is_SaveMessages (SaveMessages ms) = True"
| "is_SaveMessages x = False"

subsection \<open>What the client observes\<close>

text \<open>
  The channel carries the discrete parts, the text deltas of the merged stream and the
  error part that reports a failed stream.
\<close>

datatype chunk = Discrete delta | Token string | ErrorPart string

fun is_Discrete :: "chunk \<Rightarrow> bool" where
  "is_Discrete (Discrete d) = True"
| "is_Discrete x = False"

text \<open>What the merged streams contribute to the channel.\<close>

fun merged :: "effect list \<Rightarrow> chunk list" where
  "merged [] = []"
| "merged (Merge s # es) =
     map Token (deltas s) @
     (case failure s of None \<Rightarrow> [] | Some err \<Rightarrow> [ErrorPart onError_text]) @
     merged es"
| "merged (x # es) = merged es"

text \<open>
  The order in which the parts of one run of \<^verbatim>\<open>execute\<close> reach the client.
  \<^verbatim>\<open>dataStream.write\<close> puts its part on the channel at once. \<^verbatim>\<open>dataStream.merge\<close>
  only starts to read the stream it is given: the chunks of a stream are read
  asynchronously, and \<^verbatim>\<open>execute\<close> awaits nothing after the call of \<^verbatim>\<open>merge\<close>, so the
  block that called it, with the two writes of route.ts:155-163, runs to its end before
  the first chunk of the merged stream is put on the channel. Every write of the run
  therefore precedes every chunk of the merged stream.
\<close>

definition channel :: "effect list \<Rightarrow> chunk list" where
  "channel t = map Discrete (writes t) @ merged t"

subsection \<open>Concrete collaborators\<close>

text \<open>
  A request and environments for running the handler on concrete inputs: one in which
  every call succeeds, one for each model call that throws, one in which the synthesis
  stream fails after its first delta, and one without a session. The uuid test is a
  stand-in that only counts the 36 code units.
\<close>

definition sample_request :: request where
  "sample_request =
     \<lparr>body = Some (JObj
        [(''id'', JStr ''123e4567-e89b-12d3-a456-426614174000''),
         (''query'', JStr ''quantum computing breakthroughs''),
         (''chatId'', JStr ''123e4567-e89b-12d3-a456-426614174001'')])\<rparr>"

definition sample_env :: env where
  "sample_env =
     \<lparr>env_uuid = (\<lambda>s. length s = 36),
      env_auth = Some \<lparr>user = Some ''alice''\<rparr>,
      generateText =
        (\<lambda>m sys p. if m = QueryRewriter then Inr ''recent quantum computing results''
                   else Inr ''See [ok](http://a.b) and [ok](http://a.b).''),
      streamText = (\<lambda>m sys p. Inr (TextStream [''An'', ''swer''] None)),
      URL_hostname = sample_hostname,
      finishedMessages =
        (\<lambda>t. [\<lparr>msg_id = ''m1'', msg_role = ''assistant'', msg_parts = []\<rparr>]),
      clock = (\<lambda>i. 0)\<rparr>"

definition rewrite_fails_env :: env where
  "rewrite_fails_env = sample_env\<lparr>generateText := (\<lambda>m sys p. Inl (JsError ''rewrite''))\<rparr>"

definition search_fails_env :: env where
  "search_fails_env =
     sample_env\<lparr>generateText :=
       (\<lambda>m sys p. if m = QueryRewriter then Inr ''recent quantum computing results''
                  else Inl (JsError ''search''))\<rparr>"

definition synthesis_fails_env :: env where
  "synthesis_fails_env = sample_env\<lparr>streamText := (\<lambda>m sys p. Inl (JsError ''synthesis''))\<rparr>"

definition stream_fails_env :: env where
  "stream_fails_env =
     sample_env\<lparr>streamText :=
       (\<lambda>m sys p. Inr (TextStream [''An''] (Some (JsError ''provider''))))\<rparr>"

definition anonymous_env :: env where
  "anonymous_env = sample_env\<lparr>env_auth := None\<rparr>"

text \<open>
  The validation rule in the words of the request interface: the body is an object whose
  \<^verbatim>\<open>id\<close> and \<^verbatim>\<open>chatId\<close> are uuid strings and whose \<^verbatim>\<open>query\<close> is a string of 1 to
  2000 code units.
\<close>

definition valid_body :: "(string \<Rightarrow> bool) \<Rightarrow> jsvalue option \<Rightarrow> bool" where
  "valid_body uuid b =
     (\<exists>props i q c. b = Some (JObj props)
        \<and> map_of props ''id'' = Some (JStr i) \<and> uuid i
        \<and> map_of props ''query'' = Some (JStr q) \<and> 1 \<le> length q \<and> length q \<le> 2000
        \<and> map_of props ''chatId'' = Some (JStr c) \<and> uuid c)"

text \<open>
  Stage \<open>m\<close> is reached and its call throws \<open>err\<close>, which the \<^verbatim>\<open>catch\<close> receives:
  the calls before it returned, each on the prompt built from the results before it.
\<close>

fun stage_throws :: "env \<Rightarrow> string \<Rightarrow> model \<Rightarrow> js_error \<Rightarrow> bool" where
  "stage_throws e q QueryRewriter err =
     (generateText e QueryRewriter (Some prompts_queryRewriter) q = Inl err)"
| "stage_throws e q WebSearch err =
     (case generateText e QueryRewriter (Some prompts_queryRewriter) q of
        Inl x \<Rightarrow> False
      | Inr rq \<Rightarrow> generateText e WebSearch None (prompts_webSearch @ '' '' @ rq) = Inl err)"
| "stage_throws e q Synthesis err =
     (case generateText e QueryRewriter (Some prompts_queryRewriter) q of
        Inl x \<Rightarrow> False
      | Inr rq \<Rightarrow>
          (case generateText e WebSearch None (prompts_webSearch @ '' '' @ rq) of
             Inl x \<Rightarrow> False
           | Inr sc \<Rightarrow>
               streamText e Synthesis (Some prompts_synthesis)
                 (synthesis_prompt q rq sc (extractSourcesFromContent (URL_hostname e) sc))
               = Inl err))"

text \<open>
  The synthesis stage fails the way a provider failure surfaces: the call of
  \<^verbatim>\<open>streamText\<close> returns its stream, and the stream ends with \<open>err\<close>.
\<close>

definition stream_fails :: "env \<Rightarrow> string \<Rightarrow> js_error \<Rightarrow> bool" where
  "stream_fails e q err =
     (case generateText e QueryRewriter (Some prompts_queryRewriter) q of
        Inl x \<Rightarrow> False
      | Inr rq \<Rightarrow>
          (case generateText e WebSearch None (prompts_webSearch @ '' '' @ rq) of
             Inl x \<Rightarrow> False
           | Inr sc \<Rightarrow>
               (case streamText e Synthesis (Some prompts_synthesis)
                       (synthesis_prompt q rq sc
                          (extractSourcesFromContent (URL_hostname e) sc)) of
                  Inl x \<Rightarrow> False
                | Inr s \<Rightarrow> failure s = Some err)))"

text \<open>The stages in the order of the pipeline, up to and including \<open>m\<close>.\<close>

fun stages_upto :: "model \<Rightarrow> model list" where
  "stages_upto QueryRewriter = [QueryRewriter]"
| "stages_upto WebSearch = [QueryRewriter, WebSearch]"
| "stages_upto Synthesis = [QueryRewriter, WebSearch, Synthesis]"

definition invalid_request :: request where
  "invalid_request =
     \<lparr>body = Some (JObj
        [(''id'', JStr ''123e4567-e89b-12d3-a456-426614174000''),
         (''query'', JStr []),
         (''chatId'', JStr ''123e4567-e89b-12d3-a456-426614174001'')])\<rparr>"

section \<open>Client reducer (hooks/use-research)\<close>

text \<open>
  \<^verbatim>\<open>ResearchState\<close>. The three nullable fields and \<^verbatim>\<open>sources\<close> are assigned from
  unchecked casts of \<^verbatim>\<open>delta.data\<close>, so they hold JSON values; \<^verbatim>\<open>null\<close> is
  \<^term>\<open>JNull\<close> and the empty array is \<^term>\<open>JArr []\<close>.
\<close>

record ResearchState =
  status :: jsvalue
  rewrittenQuery :: jsvalue
  searchResults :: jsvalue
  sources :: jsvalue
  isActive :: bool

definition initialState :: ResearchState where
  "initialState =
     \<lparr>status = JNull, rewrittenQuery = JNull, searchResults = JNull,
      sources = JArr [], isActive = False\<rparr>"

text \<open>
  \<^verbatim>\<open>handleResearchData\<close>: every branch is a functional update
  \<^verbatim>\<open>setResearch((prev) => ({ ...prev, ... }))\<close>, so the hook is a function from the
  previous state and the part to the next state. The branches are in the order of the
  \<^verbatim>\<open>switch\<close>; the last one is its \<^verbatim>\<open>default\<close>.
\<close>

definition handleResearchData :: "ResearchState \<Rightarrow> delta \<Rightarrow> ResearchState" where
  "handleResearchData prev d =
     (if type d = ''data-research-status'' then
        prev\<lparr>status := data d,
             isActive := (data d \<noteq> JStr ''complete'' \<and> data d \<noteq> JStr ''error'')\<rparr>
      else if type d = ''data-research-query-rewritten'' then
        prev\<lparr>rewrittenQuery := data d\<rparr>
      else if type d = ''data-research-search-results'' then
        prev\<lparr>searchResults := data d\<rparr>
      else if type d = ''data-research-sources'' then
        prev\<lparr>sources := data d\<rparr>
      else if type d = ''data-research-complete'' then
        prev\<lparr>isActive := False\<rparr>
      else prev)"

text \<open>\<^verbatim>\<open>resetResearch\<close>: \<^verbatim>\<open>setResearch(initialState)\<close>, whatever the state was.\<close>

definition resetResearch :: "ResearchState \<Rightarrow> ResearchState" where
  "resetResearch prev = initialState"

text \<open>
  What the user of the hook can do to the state: feed it a part or reset it. A reachable
  state is the result of any list of such actions from \<^term>\<open>initialState\<close>.
\<close>

datatype action = Part delta | Reset

fun act :: "ResearchState \<Rightarrow> action \<Rightarrow> ResearchState" where
  "act s (Part d) = handleResearchData s d"
| "act s Reset = resetResearch s"

definition reached :: "action list \<Rightarrow> ResearchState" where
  "reached as = foldl act initialState as"

text \<open>
  The reading of "active" that claim C5 gives, on the list of parts applied so far: some
  status part has been applied, the last one carries neither \<^verbatim>\<open>complete\<close> nor
  \<^verbatim>\<open>error\<close>, and neither a status part nor a complete part came after it.
\<close>

definition last_status_live :: "delta list \<Rightarrow> bool" where
  "last_status_live es =
     (\<exists>pre d post. es = pre @ d # post \<and> type d = ''data-research-status'' \<and>
        data d \<noteq> JStr ''complete'' \<and> data d \<noteq> JStr ''error'' \<and>
        (\<forall>e \<in> set post. type e \<noteq> ''data-research-status'' \<and>
                          type e \<noteq> ''data-research-complete''))"

section \<open>Properties of the client reducer\<close>

lemma reached_snoc: "reached (as @ [a]) = act (reached as) a"
  by (simp add: reached_def)

text \<open>
  Claim C7. The reducer is total (a HOL function), and a part whose type is none of the
  five types the switch handles leaves every field of every state as it was.
\<close>

theorem handleResearchData_unrecognized:
  "type d \<notin> {''data-research-status'', ''data-research-query-rewritten'',
       ''data-research-search-results'', ''data-research-sources'',
       ''data-research-complete''}
   \<Longrightarrow> handleResearchData s d = s"
  by (simp add: handleResearchData_def)

theorem handleResearchData_unrecognized_witness:
  "handleResearchData
     \<lparr>status = JStr ''searching'', rewrittenQuery = JStr ''q'', searchResults = JNull,
      sources = JArr [], isActive = True\<rparr>
     \<lparr>type = ''data-research-synthesis-start'', data = JNull\<rparr>
   = \<lparr>status = JStr ''searching'', rewrittenQuery = JStr ''q'', searchResults = JNull,
      sources = JArr [], isActive = True\<rparr>"
  using handleResearchData_unrecognized
    [of "\<lparr>type = ''data-research-synthesis-start'', data = JNull\<rparr>"
        "\<lparr>status = JStr ''searching'', rewrittenQuery = JStr ''q'', searchResults = JNull,
          sources = JArr [], isActive = True\<rparr>"]
  by simp

text \<open>
  Claim C8. After any history of parts and resets, \<^verbatim>\<open>resetResearch\<close> yields exactly the
  initial state: status null, rewrittenQuery null, searchResults null, no sources,
  not active.
\<close>

theorem resetResearch_initial:
  "resetResearch (reached as) =
     \<lparr>status = JNull, rewrittenQuery = JNull, searchResults = JNull,
      sources = JArr [], isActive = False\<rparr>
   \<and> reached (as @ [Reset]) = initialState"
  by (simp add: reached_snoc resetResearch_def initialState_def)

text \<open>
  Claim C10. A status part always replaces \<^verbatim>\<open>status\<close> and recomputes \<^verbatim>\<open>isActive\<close> from
  its own payload alone: from every state, also one that is complete or failed, a
  non-terminal phase makes the state active again, and two states fed the same status
  part agree on \<^verbatim>\<open>isActive\<close>.
\<close>

theorem status_event_reactivates:
  "type d = ''data-research-status'' \<Longrightarrow>
     handleResearchData s d =
       s\<lparr>status := data d,
         isActive := (data d \<noteq> JStr ''complete'' \<and> data d \<noteq> JStr ''error'')\<rparr>
     \<and> isActive (handleResearchData s d) = isActive (handleResearchData s' d)
     \<and> (data d \<noteq> JStr ''complete'' \<and> data d \<noteq> JStr ''error''
          \<longrightarrow> status (handleResearchData s d) = data d
              \<and> isActive (handleResearchData s d))"
  by (simp add: handleResearchData_def)

theorem status_event_reactivates_witness:
  "handleResearchData
     (reached [Part \<lparr>type = ''data-research-status'', data = JStr ''complete''\<rparr>,
               Part \<lparr>type = ''data-research-complete'', data = JNull\<rparr>])
     \<lparr>type = ''data-research-status'', data = JStr ''searching''\<rparr>
   = \<lparr>status = JStr ''searching'', rewrittenQuery = JNull, searchResults = JNull,
      sources = JArr [], isActive = True\<rparr>"
  using status_event_reactivates
    [of "\<lparr>type = ''data-research-status'', data = JStr ''searching''\<rparr>"
        "reached [Part \<lparr>type = ''data-research-status'', data = JStr ''complete''\<rparr>,
                  Part \<lparr>type = ''data-research-complete'', data = JNull\<rparr>]"]
  by (simp add: reached_def handleResearchData_def initialState_def)

lemma isActive_part:
  "isActive (handleResearchData s e) =
     (if type e = ''data-research-status'' then data e \<noteq> JStr ''complete'' \<and> data e \<noteq> JStr ''error''
      else if type e = ''data-research-complete'' then False else isActive s)"
  by (simp add: handleResearchData_def)

lemma snoc_split:
  assumes "es @ [e] = pre @ d # post"
  shows "(post = [] \<and> d = e \<and> pre = es) \<or> (\<exists>post'. post = post' @ [e] \<and> es = pre @ d # post')"
proof (cases post rule: rev_cases)
  case Nil
  with assms show ?thesis by simp
next
  case (snoc post' x)
  with assms have "es @ [e] = (pre @ d # post') @ [x]" by simp
  then have "es = pre @ d # post' \<and> e = x" by (simp only: append1_eq_conv)
  with snoc show ?thesis by simp
qed

lemma last_status_live_snoc:
  "last_status_live (es @ [e]) =
     (if type e = ''data-research-status''
      then data e \<noteq> JStr ''complete'' \<and> data e \<noteq> JStr ''error''
      else if type e = ''data-research-complete'' then False else last_status_live es)"
proof -
  have fwd: "(type e = ''data-research-status'' \<and> data e \<noteq> JStr ''complete'' \<and> data e \<noteq> JStr ''error'')
      \<or> (type e \<noteq> ''data-research-status'' \<and> type e \<noteq> ''data-research-complete'' \<and> last_status_live es)"
    if l: "last_status_live (es @ [e])"
  proof -
    from l obtain pre d post where eq: "es @ [e] = pre @ d # post"
      and d: "type d = ''data-research-status''" "data d \<noteq> JStr ''complete''" "data d \<noteq> JStr ''error''"
      and q: "\<forall>e \<in> set post. type e \<noteq> ''data-research-status'' \<and> type e \<noteq> ''data-research-complete''"
      unfolding last_status_live_def by blast
    from snoc_split [OF eq] show ?thesis
    proof
      assume "post = [] \<and> d = e \<and> pre = es"
      with d show ?thesis by simp
    next
      assume "\<exists>post'. post = post' @ [e] \<and> es = pre @ d # post'"
      then obtain post' where p: "post = post' @ [e]" "es = pre @ d # post'" by blast
      with q have "type e \<noteq> ''data-research-status''" "type e \<noteq> ''data-research-complete''"
        and "\<forall>e \<in> set post'. type e \<noteq> ''data-research-status'' \<and> type e \<noteq> ''data-research-complete''"
        by simp_all
      moreover from this p d have "last_status_live es" unfolding last_status_live_def by blast
      ultimately show ?thesis by simp
    qed
  qed
  have bwd1: "type e = ''data-research-status'' \<Longrightarrow> data e \<noteq> JStr ''complete'' \<Longrightarrow> data e \<noteq> JStr ''error'' \<Longrightarrow> last_status_live (es @ [e])"
    unfolding last_status_live_def by (rule exI [of _ es], rule exI [of _ e], rule exI [of _ "[]"]) simp
  have bwd2: "last_status_live es \<Longrightarrow> type e \<noteq> ''data-research-status'' \<Longrightarrow> type e \<noteq> ''data-research-complete'' \<Longrightarrow> last_status_live (es @ [e])"
  proof -
    assume l: "last_status_live es" and t: "type e \<noteq> ''data-research-status''" "type e \<noteq> ''data-research-complete''"
    from l obtain pre d post where "es = pre @ d # post" "type d = ''data-research-status''"
        "data d \<noteq> JStr ''complete''" "data d \<noteq> JStr ''error''"
        "\<forall>e \<in> set post. type e \<noteq> ''data-research-status'' \<and> type e \<noteq> ''data-research-complete''"
      unfolding last_status_live_def by blast
    with t show ?thesis unfolding last_status_live_def
      by (intro exI [of _ pre] exI [of _ d] exI [of _ "post @ [e]"]) simp
  qed
  show ?thesis using fwd bwd1 bwd2 by (auto split: if_splits)
qed

lemma not_last_status_live_Nil: "\<not> last_status_live []" by (simp add: last_status_live_def)


text \<open>
  Claim C5. In the state reached by any list of parts, \<^verbatim>\<open>isActive\<close> holds exactly when a
  status part has been applied, the last one is neither \<^verbatim>\<open>complete\<close> nor \<^verbatim>\<open>error\<close>, and
  no complete part followed it. From an active state the next part leaves the state
  active unless it is a status part carrying \<^verbatim>\<open>complete\<close> or \<^verbatim>\<open>error\<close>, or a complete
  part, and these two make it inactive.
\<close>

theorem isActive_iff_last_status_live:
  "isActive (reached (map Part es)) = last_status_live es
   \<and> (isActive (reached (map Part es)) \<longrightarrow>
        isActive (reached (map Part (es @ [e]))) =
          (\<not> (type e = ''data-research-status'' \<and>
                (data e = JStr ''complete'' \<or> data e = JStr ''error''))
           \<and> type e \<noteq> ''data-research-complete''))"
proof
  show "isActive (reached (map Part es)) = last_status_live es"
  proof (induction es rule: rev_induct)
    case Nil
    show ?case by (simp add: reached_def initialState_def not_last_status_live_Nil)
  next
    case (snoc e es)
    then show ?case by (simp add: reached_snoc last_status_live_snoc isActive_part)
  qed
  show "isActive (reached (map Part es)) \<longrightarrow>
        isActive (reached (map Part (es @ [e]))) =
          (\<not> (type e = ''data-research-status'' \<and>
                (data e = JStr ''complete'' \<or> data e = JStr ''error''))
           \<and> type e \<noteq> ''data-research-complete'')"
    by (auto simp add: reached_snoc isActive_part)
qed

theorem isActive_iff_last_status_live_witness:
  "last_status_live
     [\<lparr>type = ''data-research-status'', data = JStr ''searching''\<rparr>,
      \<lparr>type = ''data-research-sources'', data = JArr []\<rparr>]
   \<and> \<not> isActive (reached (map Part
        [\<lparr>type = ''data-research-status'', data = JStr ''searching''\<rparr>,
         \<lparr>type = ''data-research-sources'', data = JArr []\<rparr>,
         \<lparr>type = ''data-research-complete'', data = JNull\<rparr>]))"
  using isActive_iff_last_status_live
    [of "[\<lparr>type = ''data-research-status'', data = JStr ''searching''\<rparr>,
          \<lparr>type = ''data-research-sources'', data = JArr []\<rparr>]"
        "\<lparr>type = ''data-research-complete'', data = JNull\<rparr>"]
  by (simp add: reached_def handleResearchData_def initialState_def)

section \<open>Properties of the source extractor\<close>

lemma parsed_h: "r \<in> set (parsed h ms) \<Longrightarrow> h (url r) = Some (domain r) \<and> (title r, url r) \<in> set ms"
  by (induction h ms rule: parsed.induct) (auto split: option.splits)

lemma filter_fresh_unparsed:
  assumes "h u = None"
  shows "filter (fresh (insert u seen)) (parsed h ms) = filter (fresh seen) (parsed h ms)"
proof (rule filter_cong [OF refl])
  fix r assume "r \<in> set (parsed h ms)"
  then have "h (url r) = Some (domain r)" by (simp add: parsed_h)
  with assms have "url r \<noteq> u" by auto
  then show "fresh (insert u seen) r = fresh seen r" by (simp add: fresh_def)
qed

lemma filter_fresh_insert:
  "filter (fresh (insert u seen)) rs = filter (\<lambda>x. url x \<noteq> u) (filter (fresh seen) rs)"
  by (induction rs) (auto simp: fresh_def)

lemma filter_fresh_empty: "filter (fresh {}) rs = rs"
  by (simp add: fresh_def)

lemma extract_loop_eq:
  "extract_loop h ms seen acc =
     acc @ first_by_url (filter (fresh seen) (parsed h ms))"
proof (induction h ms seen acc rule: extract_loop.induct)
  case (1 h seen acc)
  show ?case by simp
next
  case (2 h t u ms seen acc)
  show ?case
  proof (cases "u \<in> seen")
    case True
    with 2 show ?thesis by (simp add: fresh_def split: option.splits)
  next
    case False
    show ?thesis
    proof (cases "h u")
      case None
      with False 2 show ?thesis by (simp add: filter_fresh_unparsed)
    next
      case (Some d)
      from False have "fresh seen \<lparr>title = t, url = u, domain = d\<rparr>" by (simp add: fresh_def)
      with False Some 2 show ?thesis by (simp add: filter_fresh_insert)
    qed
  qed
qed

lemma spec_loop_eq:
  "spec_loop h ms seen = first_by_url (filter (fresh seen) (parsed h ms))"
proof (induction h ms seen rule: spec_loop.induct)
  case (1 h seen)
  show ?case by simp
next
  case (2 h t u ms seen)
  show ?case
  proof (cases "h u")
    case None
    with 2 show ?thesis by simp
  next
    case (Some d)
    show ?thesis
    proof (cases "u \<in> seen")
      case True
      with Some 2 show ?thesis by (simp add: fresh_def)
    next
      case False
      then have "fresh seen \<lparr>title = t, url = u, domain = d\<rparr>" by (simp add: fresh_def)
      with False Some 2 show ?thesis by (simp add: filter_fresh_insert)
    qed
  qed
qed

lemma set_first_by_url: "set (first_by_url rs) \<subseteq> set rs"
  by (induction rs rule: first_by_url.induct) auto

lemma distinct_first_by_url: "distinct (map url (first_by_url rs))"
proof (induction rs rule: first_by_url.induct)
  case 1
  show ?case by simp
next
  case (2 r rs)
  have "url r \<notin> url ` set (first_by_url (filter (\<lambda>x. url x \<noteq> url r) rs))"
    using set_first_by_url [of "filter (\<lambda>x. url x \<noteq> url r) rs"] by auto
  with 2 show ?case by simp
qed

lemma match_scheme_sound:
  "match_scheme s = Some (sc, r) \<Longrightarrow> s = sc @ r \<and> (sc = ''http://'' \<or> sc = ''https://'')"
  by (auto simp: match_scheme_def split: if_splits)

lemma takeWhile_not_mem: "c \<notin> set (takeWhile (\<lambda>x. x \<noteq> c) xs)"
  by (induction xs) auto

lemma match_at_sound:
  assumes "match_at s = Some (t, u, r)"
  shows "s = ''['' @ t @ '']('' @ u @ '')'' @ r \<and> t \<noteq> [] \<and> CHR '']'' \<notin> set t \<and>
         (\<exists>b. b \<noteq> [] \<and> CHR '')'' \<notin> set b \<and> (u = ''http://'' @ b \<or> u = ''https://'' @ b))"
proof -
  from assms obtain c r0 where s: "s = c # r0" and c: "c = CHR ''[''"
    by (cases s) (auto simp: match_at_def split: if_splits)
  let ?r1 = "dropWhile (\<lambda>x. x \<noteq> CHR '']'') r0"
  from assms s c have t: "t = takeWhile (\<lambda>x. x \<noteq> CHR '']'') r0" and tne: "t \<noteq> []"
    and br: "take 2 ?r1 = ''](''"
    by (auto simp: match_at_def Let_def split: if_splits option.splits list.splits)
  from assms s c obtain sc r2 where m: "match_scheme (drop 2 ?r1) = Some (sc, r2)"
    by (auto simp: match_at_def Let_def split: if_splits option.splits)
  let ?b = "takeWhile (\<lambda>x. x \<noteq> CHR '')'') r2"
  let ?r3 = "dropWhile (\<lambda>x. x \<noteq> CHR '')'') r2"
  from assms s c m obtain p where r3: "?r3 = p # r" and u: "u = sc @ ?b" and bne: "?b \<noteq> []"
    by (auto simp: match_at_def Let_def split: if_splits option.splits list.splits)
  have p: "p = CHR '')''" using hd_dropWhile [of "\<lambda>x. x \<noteq> CHR '')''" r2] r3 by simp
  have "r0 = t @ ?r1" by (simp add: t)
  also have "?r1 = '']('' @ drop 2 ?r1" using br append_take_drop_id [of 2 ?r1] by simp
  also have "drop 2 ?r1 = sc @ r2" using match_scheme_sound [OF m] by simp
  also have "r2 = ?b @ ?r3" by simp
  finally have "s = ''['' @ t @ '']('' @ u @ '')'' @ r" using s c u r3 p by simp
  moreover have "CHR '']'' \<notin> set t" unfolding t by (rule takeWhile_not_mem)
  moreover have "CHR '')'' \<notin> set ?b" by (rule takeWhile_not_mem)
  ultimately show ?thesis using tne bne u match_scheme_sound [OF m] by auto
qed

lemma matchAll_at:
  "(t, u) \<in> set (matchAll s) \<Longrightarrow>
     \<exists>pre suf rest. s = pre @ suf \<and> match_at suf = Some (t, u, rest)"
proof (induction s rule: matchAll.induct)
  case 1
  then show ?case by simp
next
  case (2 c cs)
  show ?case
  proof (cases "match_at (c # cs)")
    case None
    with "2.prems" have "(t, u) \<in> set (matchAll cs)" by simp
    from "2.IH"(1) [OF None this]
    obtain pre suf rest where "cs = pre @ suf" and m: "match_at suf = Some (t, u, rest)"
      by blast
    then have "c # cs = (c # pre) @ suf" by simp
    with m show ?thesis by blast
  next
    case (Some m)
    obtain t' u' rest where m: "m = (t', u', rest)" by (cases m)
    from Some m have at: "match_at (c # cs) = Some (t', u', rest)" by simp
    show ?thesis
    proof (cases "(t, u) = (t', u')")
      case True
      with at have "c # cs = [] @ (c # cs) \<and> match_at (c # cs) = Some (t, u, rest)" by simp
      then show ?thesis by blast
    next
      case False
      from "2.prems" at have "(t, u) \<in> set ((t', u') # matchAll rest)" by simp
      with False have in_rest: "(t, u) \<in> set (matchAll rest)" by auto
      from "2.IH"(2) [OF at refl refl in_rest]
      obtain pre suf rest' where r: "rest = pre @ suf" and m': "match_at suf = Some (t, u, rest')"
        by blast
      from match_at_sound [OF at] have "c # cs = ''['' @ t' @ '']('' @ u' @ '')'' @ rest"
        by (rule conjunct1)
      with r have "c # cs = (''['' @ t' @ '']('' @ u' @ '')'' @ pre) @ suf" by simp
      with m' show ?thesis by blast
    qed
  qed
qed

lemma matchAll_sound:
  assumes "(t, u) \<in> set (matchAll s)"
  shows "(\<exists>pre post. s = pre @ ''['' @ t @ '']('' @ u @ '')'' @ post) \<and> t \<noteq> [] \<and> CHR '']'' \<notin> set t \<and>
     (\<exists>b. b \<noteq> [] \<and> CHR '')'' \<notin> set b \<and> (u = ''http://'' @ b \<or> u = ''https://'' @ b))"
proof -
  from matchAll_at [OF assms]
  obtain pre suf rest where s: "s = pre @ suf" and m: "match_at suf = Some (t, u, rest)"
    by blast
  note snd = match_at_sound [OF m]
  from snd have "suf = ''['' @ t @ '']('' @ u @ '')'' @ rest" by (rule conjunct1)
  with s have "s = pre @ ''['' @ t @ '']('' @ u @ '')'' @ rest" by (simp only:)
  then have "\<exists>pre post. s = pre @ ''['' @ t @ '']('' @ u @ '')'' @ post" by (intro exI)
  moreover from snd have "t \<noteq> [] \<and> CHR '']'' \<notin> set t \<and>
     (\<exists>b. b \<noteq> [] \<and> CHR '')'' \<notin> set b \<and> (u = ''http://'' @ b \<or> u = ''https://'' @ b))"
    by (rule conjunct2)
  ultimately show ?thesis by (rule conjI)
qed

lemma extractSourcesFromContent_first_by_url:
  "extractSourcesFromContent h text = first_by_url (parsed h (matchAll text))"
  by (simp add: extractSourcesFromContent_def extract_loop_eq filter_fresh_empty)

lemma extractSources_spec_first_by_url:
  "extractSources_spec h text = first_by_url (parsed h (matchAll text))"
  by (simp add: extractSources_spec_def spec_loop_eq filter_fresh_empty)

lemma extracted_record:
  assumes "r \<in> set (extractSourcesFromContent h text)"
  shows "h (url r) = Some (domain r)
     \<and> (\<exists>pre post. text = pre @ ''['' @ title r @ '']('' @ url r @ '')'' @ post)
     \<and> (\<exists>b. url r = ''http://'' @ b \<or> url r = ''https://'' @ b)"
proof -
  from assms have "r \<in> set (parsed h (matchAll text))"
    using set_first_by_url [of "parsed h (matchAll text)"]
    by (auto simp: extractSourcesFromContent_first_by_url)
  then have p: "h (url r) = Some (domain r)" and m: "(title r, url r) \<in> set (matchAll text)"
    by (simp_all add: parsed_h)
  from matchAll_sound [OF m] p show ?thesis by blast
qed

lemma extract_empty: "extractSourcesFromContent h [] = []"
  by (simp add: extractSourcesFromContent_def)

lemma extract_javascript:
  "extractSourcesFromContent h ''[not a link](javascript:alert(1))'' = []"
  by (simp add: extractSourcesFromContent_def match_at_def match_scheme_def)

lemma extract_x_com:
  assumes "h ''https://x.com'' = Some d1" and "h ''https://x.com/page'' = Some d2"
  shows "extractSourcesFromContent h
           ''[A](https://x.com) [B](https://x.com/page) [A](https://x.com)'' =
         [\<lparr>title = ''A'', url = ''https://x.com'', domain = d1\<rparr>,
          \<lparr>title = ''B'', url = ''https://x.com/page'', domain = d2\<rparr>]"
proof -
  have "matchAll ''[A](https://x.com) [B](https://x.com/page) [A](https://x.com)'' =
          [(''A'', ''https://x.com''), (''B'', ''https://x.com/page''), (''A'', ''https://x.com'')]"
    by (simp add: match_at_def match_scheme_def)
  with assms show ?thesis by (simp add: extractSourcesFromContent_def)
qed

lemma extract_a_b:
  assumes "h ''http://a.b'' = Some d"
  shows "extractSourcesFromContent h ''[ok](http://a.b)'' =
         [\<lparr>title = ''ok'', url = ''http://a.b'', domain = d\<rparr>]"
proof -
  have "matchAll ''[ok](http://a.b)'' = [(''ok'', ''http://a.b'')]"
    by (simp add: match_at_def match_scheme_def)
  with assms show ?thesis by (simp add: extractSourcesFromContent_def)
qed

text \<open>
  Claim C2. \<^verbatim>\<open>extractSourcesFromContent\<close> is a total function (no input makes it fail)
  and computes the reference algorithm: it agrees with the seen-set algorithm of the
  specification and with "first record per url among the matches that parse"; no url
  occurs twice in the result; every record stems from an occurrence of
  \<^verbatim>\<open>[title](url)\<close> in the text whose url begins with \<^verbatim>\<open>http://\<close> or \<^verbatim>\<open>https://\<close>,
  and its domain is the hostname parsed from its url. The empty text and the
  \<^verbatim>\<open>javascript:\<close> link give no record; the examples with \<^verbatim>\<open>x.com\<close> and \<^verbatim>\<open>a.b\<close> give
  the records the specification lists, whenever their urls parse.
\<close>

theorem extractSourcesFromContent_reference:
  "extractSourcesFromContent h text = extractSources_spec h text
   \<and> extractSourcesFromContent h text = first_by_url (parsed h (matchAll text))
   \<and> distinct (map url (extractSourcesFromContent h text))
   \<and> (\<forall>r \<in> set (extractSourcesFromContent h text).
         h (url r) = Some (domain r)
         \<and> (\<exists>pre post. text = pre @ ''['' @ title r @ '']('' @ url r @ '')'' @ post)
         \<and> (\<exists>b. url r = ''http://'' @ b \<or> url r = ''https://'' @ b))
   \<and> extractSourcesFromContent h [] = []
   \<and> extractSourcesFromContent h ''[not a link](javascript:alert(1))'' = []
   \<and> (h ''https://x.com'' = Some d1 \<and> h ''https://x.com/page'' = Some d2 \<longrightarrow>
        extractSourcesFromContent h
          ''[A](https://x.com) [B](https://x.com/page) [A](https://x.com)'' =
        [\<lparr>title = ''A'', url = ''https://x.com'', domain = d1\<rparr>,
         \<lparr>title = ''B'', url = ''https://x.com/page'', domain = d2\<rparr>])
   \<and> (h ''http://a.b'' = Some d \<longrightarrow>
        extractSourcesFromContent h ''[ok](http://a.b)'' =
        [\<lparr>title = ''ok'', url = ''http://a.b'', domain = d\<rparr>])"
proof (intro conjI)
  show "extractSourcesFromContent h text = extractSources_spec h text"
    by (simp only: extractSourcesFromContent_first_by_url extractSources_spec_first_by_url)
  show "extractSourcesFromContent h text = first_by_url (parsed h (matchAll text))"
    by (rule extractSourcesFromContent_first_by_url)
  show "distinct (map url (extractSourcesFromContent h text))"
    by (simp only: extractSourcesFromContent_first_by_url distinct_first_by_url)
  show "\<forall>r \<in> set (extractSourcesFromContent h text).
         h (url r) = Some (domain r)
         \<and> (\<exists>pre post. text = pre @ ''['' @ title r @ '']('' @ url r @ '')'' @ post)
         \<and> (\<exists>b. url r = ''http://'' @ b \<or> url r = ''https://'' @ b)"
    using extracted_record by blast
  show "extractSourcesFromContent h [] = []"
    by (rule extract_empty)
  show "extractSourcesFromContent h ''[not a link](javascript:alert(1))'' = []"
    by (rule extract_javascript)
  show "h ''https://x.com'' = Some d1 \<and> h ''https://x.com/page'' = Some d2 \<longrightarrow>
        extractSourcesFromContent h
          ''[A](https://x.com) [B](https://x.com/page) [A](https://x.com)'' =
        [\<lparr>title = ''A'', url = ''https://x.com'', domain = d1\<rparr>,
         \<lparr>title = ''B'', url = ''https://x.com/page'', domain = d2\<rparr>]"
    using extract_x_com by blast
  show "h ''http://a.b'' = Some d \<longrightarrow>
        extractSourcesFromContent h ''[ok](http://a.b)'' =
        [\<lparr>title = ''ok'', url = ''http://a.b'', domain = d\<rparr>]"
    using extract_a_b by blast
qed

theorem extractSourcesFromContent_reference_witness:
  "sample_hostname ''https://x.com'' = Some ''x.com''
   \<and> sample_hostname ''https://x.com/page'' = Some ''x.com''
   \<and> sample_hostname ''http://a.b'' = Some ''a.b''
   \<and> extractSourcesFromContent sample_hostname
        ''[A](https://x.com) [B](https://x.com/page) [A](https://x.com)'' =
      [\<lparr>title = ''A'', url = ''https://x.com'', domain = ''x.com''\<rparr>,
       \<lparr>title = ''B'', url = ''https://x.com/page'', domain = ''x.com''\<rparr>]
   \<and> extractSourcesFromContent sample_hostname ''[ok](http://a.b)'' =
      [\<lparr>title = ''ok'', url = ''http://a.b'', domain = ''a.b''\<rparr>]
   \<and> \<lparr>title = ''B'', url = ''https://x.com/page'', domain = ''x.com''\<rparr>
       \<in> set (extractSourcesFromContent sample_hostname
                 ''[A](https://x.com) [B](https://x.com/page) [A](https://x.com)'')"
proof -
  note t = extractSourcesFromContent_reference
    [of sample_hostname "''[A](https://x.com) [B](https://x.com/page) [A](https://x.com)''"
        "''x.com''" "''x.com''" "''a.b''"]
  have h1: "sample_hostname ''https://x.com'' = Some ''x.com''"
    and h2: "sample_hostname ''https://x.com/page'' = Some ''x.com''"
    and h3: "sample_hostname ''http://a.b'' = Some ''a.b''"
    by (simp_all add: sample_hostname_def)
  from t h1 h2 have x: "extractSourcesFromContent sample_hostname
        ''[A](https://x.com) [B](https://x.com/page) [A](https://x.com)'' =
      [\<lparr>title = ''A'', url = ''https://x.com'', domain = ''x.com''\<rparr>,
       \<lparr>title = ''B'', url = ''https://x.com/page'', domain = ''x.com''\<rparr>]"
    by blast
  from t h3 have a: "extractSourcesFromContent sample_hostname ''[ok](http://a.b)'' =
      [\<lparr>title = ''ok'', url = ''http://a.b'', domain = ''a.b''\<rparr>]"
    by blast
  from x have "\<lparr>title = ''B'', url = ''https://x.com/page'', domain = ''x.com''\<rparr>
       \<in> set (extractSourcesFromContent sample_hostname
                 ''[A](https://x.com) [B](https://x.com/page) [A](https://x.com)'')"
    by simp
  with h1 h2 h3 x a show ?thesis by blast
qed

section \<open>Properties of the research route\<close>

lemma parse_valid:
  "(case b of None \<Rightarrow> None | Some json \<Rightarrow> researchRequestSchema_parse uuid json) = Some rb
   \<Longrightarrow> valid_body uuid b"
  unfolding valid_body_def researchRequestSchema_parse_def
  by (auto split: option.splits jsvalue.splits if_splits)

lemma parse_invalid:
  "(case b of None \<Rightarrow> None | Some json \<Rightarrow> researchRequestSchema_parse uuid json) = None
   \<Longrightarrow> \<not> valid_body uuid b"
  unfolding valid_body_def researchRequestSchema_parse_def
  by (auto split: option.splits jsvalue.splits if_splits)

lemma invalid_parse:
  "\<not> valid_body uuid b \<Longrightarrow>
     (case b of None \<Rightarrow> None | Some json \<Rightarrow> researchRequestSchema_parse uuid json) = None"
  using parse_valid [where b = b and uuid = uuid] by (cases "case b of None \<Rightarrow> None | Some json \<Rightarrow> researchRequestSchema_parse uuid json") auto

lemma valid_parse:
  "valid_body uuid b \<Longrightarrow>
     \<exists>rb. (case b of None \<Rightarrow> None | Some json \<Rightarrow> researchRequestSchema_parse uuid json) = Some rb"
  using parse_invalid [where b = b and uuid = uuid] by (cases "case b of None \<Rightarrow> None | Some json \<Rightarrow> researchRequestSchema_parse uuid json") auto

lemma POST_invalid:
  "\<not> valid_body (env_uuid e) (body req) \<Longrightarrow>
     POST e req = ([], ErrorResponse 400 ''bad_request:api'')"
  by (simp add: POST_def invalid_parse)

lemma POST_anonymous:
  assumes "valid_body (env_uuid e) (body req)" and "\<not> has_user (env_auth e)"
  shows "POST e req = ([AuthCall], ErrorResponse 401 ''unauthorized:chat'')"
proof -
  from valid_parse [OF assms(1)] obtain rb where
    "(case body req of None \<Rightarrow> None
      | Some json \<Rightarrow> researchRequestSchema_parse (env_uuid e) json) = Some rb" ..
  with assms(2) show ?thesis by (simp add: POST_def)
qed

lemma POST_stream:
  assumes "body req = Some json"
    and "researchRequestSchema_parse (env_uuid e) json = Some rb"
    and "has_user (env_auth e)"
  shows "POST e req =
           (AuthCall #
              createUIMessageStream (execute e (query rb)) (onFinish e (chatId rb))
                (finishedMessages e),
            StreamResponse)"
  using assms by (simp add: POST_def)

lemma try_block_rewrite_throws:
  "generateText e QueryRewriter (Some prompts_queryRewriter) q = Inl err \<Longrightarrow>
     try_block e q =
       ([Write (status_part ''rewriting-query''), Invoke QueryRewriter q], Inl err)"
  by (simp add: try_block_def)

lemma try_block_search_throws:
  "generateText e QueryRewriter (Some prompts_queryRewriter) q = Inr rq \<Longrightarrow>
   generateText e WebSearch None (prompts_webSearch @ '' '' @ rq) = Inl err \<Longrightarrow>
     try_block e q =
       ([Write (status_part ''rewriting-query''), Invoke QueryRewriter q,
         Write \<lparr>type = ''data-research-query-rewritten'', data = JStr rq\<rparr>,
         Write (status_part ''searching''),
         Invoke WebSearch (prompts_webSearch @ '' '' @ rq)], Inl err)"
  by (simp add: try_block_def)

lemma try_block_synthesis_throws:
  "generateText e QueryRewriter (Some prompts_queryRewriter) q = Inr rq \<Longrightarrow>
   generateText e WebSearch None (prompts_webSearch @ '' '' @ rq) = Inr sc \<Longrightarrow>
   streamText e Synthesis (Some prompts_synthesis)
     (synthesis_prompt q rq sc (extractSourcesFromContent (URL_hostname e) sc)) = Inl err \<Longrightarrow>
     try_block e q =
       ([Write (status_part ''rewriting-query''), Invoke QueryRewriter q,
         Write \<lparr>type = ''data-research-query-rewritten'', data = JStr rq\<rparr>,
         Write (status_part ''searching''),
         Invoke WebSearch (prompts_webSearch @ '' '' @ rq),
         Write \<lparr>type = ''data-research-search-results'', data = JStr sc\<rparr>,
         Write \<lparr>type = ''data-research-sources'',
                data = sources_json (extractSourcesFromContent (URL_hostname e) sc)\<rparr>,
         Write (status_part ''synthesizing''),
         Write \<lparr>type = ''data-research-synthesis-start'', data = JNull\<rparr>,
         Invoke Synthesis
           (synthesis_prompt q rq sc (extractSourcesFromContent (URL_hostname e) sc))],
        Inl err)"
  by (simp add: try_block_def Let_def)

lemma execute_returns:
  "generateText e QueryRewriter (Some prompts_queryRewriter) q = Inr rq \<Longrightarrow>
   generateText e WebSearch None (prompts_webSearch @ '' '' @ rq) = Inr sc \<Longrightarrow>
   streamText e Synthesis (Some prompts_synthesis)
     (synthesis_prompt q rq sc (extractSourcesFromContent (URL_hostname e) sc)) = Inr s \<Longrightarrow>
     execute e q =
       ([Write (status_part ''rewriting-query''), Invoke QueryRewriter q,
         Write \<lparr>type = ''data-research-query-rewritten'', data = JStr rq\<rparr>,
         Write (status_part ''searching''),
         Invoke WebSearch (prompts_webSearch @ '' '' @ rq),
         Write \<lparr>type = ''data-research-search-results'', data = JStr sc\<rparr>,
         Write \<lparr>type = ''data-research-sources'',
                data = sources_json (extractSourcesFromContent (URL_hostname e) sc)\<rparr>,
         Write (status_part ''synthesizing''),
         Write \<lparr>type = ''data-research-synthesis-start'', data = JNull\<rparr>,
         Invoke Synthesis
           (synthesis_prompt q rq sc (extractSourcesFromContent (URL_hostname e) sc)),
         Merge s,
         Write (status_part ''complete''),
         Write \<lparr>type = ''data-research-complete'', data = JNull\<rparr>],
        Inr ())"
  by (simp add: execute_def try_block_def Let_def)

lemma execute_throws:
  "try_block e q = (t, Inl err) \<Longrightarrow>
     execute e q = (t @ [ConsoleError err, Write (status_part ''error'')], Inl err)"
  by (simp add: execute_def)

lemma channel_returns:
  assumes "generateText e QueryRewriter (Some prompts_queryRewriter) q = Inr rq"
    and "generateText e WebSearch None (prompts_webSearch @ '' '' @ rq) = Inr sc"
    and "streamText e Synthesis (Some prompts_synthesis)
           (synthesis_prompt q rq sc (extractSourcesFromContent (URL_hostname e) sc))
         = Inr s"
  shows "channel (fst (execute e q)) =
           [Discrete \<lparr>type = ''data-research-status'', data = JStr ''rewriting-query''\<rparr>,
            Discrete \<lparr>type = ''data-research-query-rewritten'', data = JStr rq\<rparr>,
            Discrete \<lparr>type = ''data-research-status'', data = JStr ''searching''\<rparr>,
            Discrete \<lparr>type = ''data-research-search-results'', data = JStr sc\<rparr>,
            Discrete \<lparr>type = ''data-research-sources'',
               data = sources_json (extractSourcesFromContent (URL_hostname e) sc)\<rparr>,
            Discrete \<lparr>type = ''data-research-status'', data = JStr ''synthesizing''\<rparr>,
            Discrete \<lparr>type = ''data-research-synthesis-start'', data = JNull\<rparr>,
            Discrete \<lparr>type = ''data-research-status'', data = JStr ''complete''\<rparr>,
            Discrete \<lparr>type = ''data-research-complete'', data = JNull\<rparr>]
           @ map Token (deltas s)
           @ (case failure s of None \<Rightarrow> [] | Some err \<Rightarrow> [ErrorPart onError_text])"
  by (simp add: execute_returns [OF assms] channel_def status_part_def)

lemma takeWhile_Discrete_tokens:
  "takeWhile is_Discrete
     (map Token ts @ (case f of None \<Rightarrow> [] | Some err \<Rightarrow> [ErrorPart x])) = []"
  by (cases ts; cases f) simp_all

lemma sample_run:
  "generateText sample_env QueryRewriter (Some prompts_queryRewriter)
     ''quantum computing breakthroughs'' = Inr ''recent quantum computing results''"
  "generateText sample_env WebSearch None
     (prompts_webSearch @ '' '' @ ''recent quantum computing results'')
   = Inr ''See [ok](http://a.b) and [ok](http://a.b).''"
  "streamText sample_env Synthesis (Some prompts_synthesis)
     (synthesis_prompt ''quantum computing breakthroughs''
        ''recent quantum computing results''
        ''See [ok](http://a.b) and [ok](http://a.b).''
        (extractSourcesFromContent (URL_hostname sample_env)
           ''See [ok](http://a.b) and [ok](http://a.b).''))
   = Inr (TextStream [''An'', ''swer''] None)"
  by (simp_all add: sample_env_def)

lemma sample_sources:
  "sources_json (extractSourcesFromContent (URL_hostname sample_env)
     ''See [ok](http://a.b) and [ok](http://a.b).'') =
   JArr [JObj [(''title'', JStr ''ok''), (''url'', JStr ''http://a.b''),
               (''domain'', JStr ''a.b'')]]"
  by (simp add: sample_env_def extractSourcesFromContent_def match_at_def
        match_scheme_def sample_hostname_def sources_json_def)

text \<open>
  Claim C1 says that exactly seven discrete parts precede the first synthesis token. In a
  run in which the three model calls succeed, the first seven parts written are
  status(rewriting-query), query-rewritten, status(searching), search-results, sources,
  status(synthesizing), synthesis-start, in this order, as the claim lists them; but the
  discrete parts that reach the client before the first chunk of the synthesis stream
  are nine: status(complete) and complete follow the seven, since they are written
  before the merged stream is read.
\<close>

theorem parts_before_first_token:
  assumes "generateText e QueryRewriter (Some prompts_queryRewriter) q = Inr rq"
    and "generateText e WebSearch None (prompts_webSearch @ '' '' @ rq) = Inr sc"
    and "streamText e Synthesis (Some prompts_synthesis)
           (synthesis_prompt q rq sc (extractSourcesFromContent (URL_hostname e) sc))
         = Inr s"
  shows "take 7 (writes (fst (execute e q))) =
           [\<lparr>type = ''data-research-status'', data = JStr ''rewriting-query''\<rparr>,
            \<lparr>type = ''data-research-query-rewritten'', data = JStr rq\<rparr>,
            \<lparr>type = ''data-research-status'', data = JStr ''searching''\<rparr>,
            \<lparr>type = ''data-research-search-results'', data = JStr sc\<rparr>,
            \<lparr>type = ''data-research-sources'',
               data = sources_json (extractSourcesFromContent (URL_hostname e) sc)\<rparr>,
            \<lparr>type = ''data-research-status'', data = JStr ''synthesizing''\<rparr>,
            \<lparr>type = ''data-research-synthesis-start'', data = JNull\<rparr>]
         \<and> takeWhile is_Discrete (channel (fst (execute e q))) =
           [Discrete \<lparr>type = ''data-research-status'', data = JStr ''rewriting-query''\<rparr>,
            Discrete \<lparr>type = ''data-research-query-rewritten'', data = JStr rq\<rparr>,
            Discrete \<lparr>type = ''data-research-status'', data = JStr ''searching''\<rparr>,
            Discrete \<lparr>type = ''data-research-search-results'', data = JStr sc\<rparr>,
            Discrete \<lparr>type = ''data-research-sources'',
               data = sources_json (extractSourcesFromContent (URL_hostname e) sc)\<rparr>,
            Discrete \<lparr>type = ''data-research-status'', data = JStr ''synthesizing''\<rparr>,
            Discrete \<lparr>type = ''data-research-synthesis-start'', data = JNull\<rparr>,
            Discrete \<lparr>type = ''data-research-status'', data = JStr ''complete''\<rparr>,
            Discrete \<lparr>type = ''data-research-complete'', data = JNull\<rparr>]
         \<and> snd (execute e q) = Inr ()"
proof (intro conjI)
  show "take 7 (writes (fst (execute e q))) =
           [\<lparr>type = ''data-research-status'', data = JStr ''rewriting-query''\<rparr>,
            \<lparr>type = ''data-research-query-rewritten'', data = JStr rq\<rparr>,
            \<lparr>type = ''data-research-status'', data = JStr ''searching''\<rparr>,
            \<lparr>type = ''data-research-search-results'', data = JStr sc\<rparr>,
            \<lparr>type = ''data-research-sources'',
               data = sources_json (extractSourcesFromContent (URL_hostname e) sc)\<rparr>,
            \<lparr>type = ''data-research-status'', data = JStr ''synthesizing''\<rparr>,
            \<lparr>type = ''data-research-synthesis-start'', data = JNull\<rparr>]"
    by (simp add: execute_returns [OF assms] status_part_def)
  show "takeWhile is_Discrete (channel (fst (execute e q))) =
           [Discrete \<lparr>type = ''data-research-status'', data = JStr ''rewriting-query''\<rparr>,
            Discrete \<lparr>type = ''data-research-query-rewritten'', data = JStr rq\<rparr>,
            Discrete \<lparr>type = ''data-research-status'', data = JStr ''searching''\<rparr>,
            Discrete \<lparr>type = ''data-research-search-results'', data = JStr sc\<rparr>,
            Discrete \<lparr>type = ''data-research-sources'',
               data = sources_json (extractSourcesFromContent (URL_hostname e) sc)\<rparr>,
            Discrete \<lparr>type = ''data-research-status'', data = JStr ''synthesizing''\<rparr>,
            Discrete \<lparr>type = ''data-research-synthesis-start'', data = JNull\<rparr>,
            Discrete \<lparr>type = ''data-research-status'', data = JStr ''complete''\<rparr>,
            Discrete \<lparr>type = ''data-research-complete'', data = JNull\<rparr>]"
    by (simp add: channel_returns [OF assms] takeWhile_Discrete_tokens)
  show "snd (execute e q) = Inr ()"
    by (simp add: execute_returns [OF assms])
qed

theorem parts_before_first_token_witness:
  "channel (fst (execute sample_env ''quantum computing breakthroughs'')) =
     [Discrete \<lparr>type = ''data-research-status'', data = JStr ''rewriting-query''\<rparr>,
      Discrete \<lparr>type = ''data-research-query-rewritten'',
         data = JStr ''recent quantum computing results''\<rparr>,
      Discrete \<lparr>type = ''data-research-status'', data = JStr ''searching''\<rparr>,
      Discrete \<lparr>type = ''data-research-search-results'',
         data = JStr ''See [ok](http://a.b) and [ok](http://a.b).''\<rparr>,
      Discrete \<lparr>type = ''data-research-sources'',
         data = JArr [JObj [(''title'', JStr ''ok''), (''url'', JStr ''http://a.b''),
                            (''domain'', JStr ''a.b'')]]\<rparr>,
      Discrete \<lparr>type = ''data-research-status'', data = JStr ''synthesizing''\<rparr>,
      Discrete \<lparr>type = ''data-research-synthesis-start'', data = JNull\<rparr>,
      Discrete \<lparr>type = ''data-research-status'', data = JStr ''complete''\<rparr>,
      Discrete \<lparr>type = ''data-research-complete'', data = JNull\<rparr>,
      Token ''An'', Token ''swer'']
   \<and> length (takeWhile is_Discrete
         (channel (fst (execute sample_env ''quantum computing breakthroughs'')))) = 9"
proof -
  have c: "channel (fst (execute sample_env ''quantum computing breakthroughs'')) =
     [Discrete \<lparr>type = ''data-research-status'', data = JStr ''rewriting-query''\<rparr>,
      Discrete \<lparr>type = ''data-research-query-rewritten'',
         data = JStr ''recent quantum computing results''\<rparr>,
      Discrete \<lparr>type = ''data-research-status'', data = JStr ''searching''\<rparr>,
      Discrete \<lparr>type = ''data-research-search-results'',
         data = JStr ''See [ok](http://a.b) and [ok](http://a.b).''\<rparr>,
      Discrete \<lparr>type = ''data-research-sources'',
         data = JArr [JObj [(''title'', JStr ''ok''), (''url'', JStr ''http://a.b''),
                            (''domain'', JStr ''a.b'')]]\<rparr>,
      Discrete \<lparr>type = ''data-research-status'', data = JStr ''synthesizing''\<rparr>,
      Discrete \<lparr>type = ''data-research-synthesis-start'', data = JNull\<rparr>,
      Discrete \<lparr>type = ''data-research-status'', data = JStr ''complete''\<rparr>,
      Discrete \<lparr>type = ''data-research-complete'', data = JNull\<rparr>,
      Token ''An'', Token ''swer'']"
    by (simp add: channel_returns [OF sample_run] sample_sources)
  from parts_before_first_token [OF sample_run]
  have "length (takeWhile is_Discrete
         (channel (fst (execute sample_env ''quantum computing breakthroughs'')))) = 9"
    by simp
  with c show ?thesis by (rule conjI)
qed

text \<open>
  Claim C3 says that the client observes status(complete) and complete only after the
  last synthesis token. In a run in which the three model calls succeed, the client
  receives, after the seven parts of the stages, status(complete), then complete, and
  only then the chunks of the synthesis stream: no discrete part interleaves with the
  tokens, but the terminal pair precedes every one of them.
\<close>

theorem terminal_pair_before_tokens:
  assumes "generateText e QueryRewriter (Some prompts_queryRewriter) q = Inr rq"
    and "generateText e WebSearch None (prompts_webSearch @ '' '' @ rq) = Inr sc"
    and "streamText e Synthesis (Some prompts_synthesis)
           (synthesis_prompt q rq sc (extractSourcesFromContent (URL_hostname e) sc))
         = Inr s"
  shows "drop 7 (channel (fst (execute e q))) =
           Discrete \<lparr>type = ''data-research-status'', data = JStr ''complete''\<rparr> #
           Discrete \<lparr>type = ''data-research-complete'', data = JNull\<rparr> #
           map Token (deltas s) @
           (case failure s of None \<Rightarrow> [] | Some err \<Rightarrow> [ErrorPart onError_text])
         \<and> list_all is_Discrete (take 7 (channel (fst (execute e q))))"
  by (simp add: channel_returns [OF assms])

theorem terminal_pair_before_tokens_witness:
  "drop 7 (channel (fst (execute sample_env ''quantum computing breakthroughs''))) =
     [Discrete \<lparr>type = ''data-research-status'', data = JStr ''complete''\<rparr>,
      Discrete \<lparr>type = ''data-research-complete'', data = JNull\<rparr>,
      Token ''An'', Token ''swer'']"
  using terminal_pair_before_tokens [OF sample_run] by simp

lemma throws_effects:
  assumes "try_block e q = (t, Inl err)"
    and "invoked t = ms"
    and "''data-research-complete'' \<notin> set (map type (writes t))"
    and "\<lparr>type = ''data-research-status'', data = JStr ''complete''\<rparr> \<notin> set (writes t)"
  shows "snd (execute e q) = Inl err
     \<and> last (fst (execute e q)) =
         Write \<lparr>type = ''data-research-status'', data = JStr ''error''\<rparr>
     \<and> invoked (fst (execute e q)) = ms
     \<and> ''data-research-complete'' \<notin> set (map type (writes (fst (execute e q))))
     \<and> \<lparr>type = ''data-research-status'', data = JStr ''complete''\<rparr>
         \<notin> set (writes (fst (execute e q)))"
proof -
  have w: "writes (xs @ ys) = writes xs @ writes ys" for xs ys
    by (induction xs rule: writes.induct) simp_all
  have i: "invoked (xs @ ys) = invoked xs @ invoked ys" for xs ys
    by (induction xs rule: invoked.induct) simp_all
  from assms show ?thesis
    by (simp add: execute_throws [OF assms(1)] w i status_part_def)
qed

lemma stage_throws_effects:
  assumes "stage_throws e q m err"
  shows "snd (execute e q) = Inl err
     \<and> last (fst (execute e q)) =
         Write \<lparr>type = ''data-research-status'', data = JStr ''error''\<rparr>
     \<and> invoked (fst (execute e q)) = stages_upto m
     \<and> ''data-research-complete'' \<notin> set (map type (writes (fst (execute e q))))
     \<and> \<lparr>type = ''data-research-status'', data = JStr ''complete''\<rparr>
         \<notin> set (writes (fst (execute e q)))"
proof (cases m)
  case QueryRewriter
  with assms have "generateText e QueryRewriter (Some prompts_queryRewriter) q = Inl err"
    by simp
  note tb = try_block_rewrite_throws [OF this]
  from QueryRewriter show ?thesis
    by (intro throws_effects [OF tb]) (simp_all add: status_part_def)
next
  case WebSearch
  with assms obtain rq where
    "generateText e QueryRewriter (Some prompts_queryRewriter) q = Inr rq"
    "generateText e WebSearch None (prompts_webSearch @ '' '' @ rq) = Inl err"
    by (auto split: sum.splits)
  note tb = try_block_search_throws [OF this]
  from WebSearch show ?thesis
    by (intro throws_effects [OF tb]) (simp_all add: status_part_def)
next
  case Synthesis
  with assms obtain rq sc where
    "generateText e QueryRewriter (Some prompts_queryRewriter) q = Inr rq"
    "generateText e WebSearch None (prompts_webSearch @ '' '' @ rq) = Inr sc"
    "streamText e Synthesis (Some prompts_synthesis)
       (synthesis_prompt q rq sc (extractSourcesFromContent (URL_hostname e) sc))
     = Inl err"
    by (auto split: sum.splits)
  note tb = try_block_synthesis_throws [OF this]
  from Synthesis show ?thesis
    by (intro throws_effects [OF tb]) (simp_all add: status_part_def)
qed

lemma POST_after_throw:
  assumes "body req = Some json"
    and "researchRequestSchema_parse (env_uuid e) json = Some rb"
    and "has_user (env_auth e)"
    and "snd (execute e (query rb)) = Inl err"
  shows "fst (POST e req) =
           AuthCall # fst (execute e (query rb)) @ [StreamError onError_text] @
             onFinish e (chatId rb)
               (finishedMessages e (fst (execute e (query rb)) @ [StreamError onError_text]))"
proof -
  obtain t r where x: "execute e (query rb) = (t, r)" by (cases "execute e (query rb)")
  with assms(4) have "r = Inl err" by simp
  with x show ?thesis
    by (simp add: POST_stream [OF assms(1-3)] createUIMessageStream_def Let_def)
qed

lemma onFinish_saves: "msgs \<noteq> [] \<Longrightarrow> list_ex is_SaveMessages (xs @ onFinish e c msgs)"
  by (simp add: onFinish_def)

lemma stream_fails_effects:
  assumes "stream_fails e q err"
  shows "snd (execute e q) = Inr ()
     \<and> \<lparr>type = ''data-research-status'', data = JStr ''error''\<rparr>
         \<notin> set (writes (fst (execute e q)))
     \<and> drop 7 (writes (fst (execute e q))) =
         [\<lparr>type = ''data-research-status'', data = JStr ''complete''\<rparr>,
          \<lparr>type = ''data-research-complete'', data = JNull\<rparr>]
     \<and> last (channel (fst (execute e q))) = ErrorPart onError_text"
proof -
  from assms obtain rq sc s where r:
    "generateText e QueryRewriter (Some prompts_queryRewriter) q = Inr rq"
    "generateText e WebSearch None (prompts_webSearch @ '' '' @ rq) = Inr sc"
    "streamText e Synthesis (Some prompts_synthesis)
       (synthesis_prompt q rq sc (extractSourcesFromContent (URL_hostname e) sc))
     = Inr s"
    and f: "failure s = Some err"
    by (auto simp: stream_fails_def split: sum.splits)
  from f show ?thesis
    by (simp add: channel_returns [OF r]) (simp add: execute_returns [OF r] status_part_def)
qed

text \<open>
  Claim C4 says that a run in which a stage fails writes status=error, throws the error
  again, runs no further stage, writes no complete part and never calls
  \<^verbatim>\<open>saveMessages\<close>. For a valid request of an authenticated caller: when the call of
  stage \<open>m\<close> throws \<open>err\<close>, \<^verbatim>\<open>execute\<close> does write status=error as its last effect and
  throws \<open>err\<close> again, only the stages up to \<open>m\<close> are invoked and no complete part is
  written; but the host then calls \<^verbatim>\<open>onFinish\<close>, which has no failure guard, and
  \<^verbatim>\<open>saveMessages\<close> is called whenever the host hands it a message. And when the
  synthesis call returns and its stream fails afterwards, \<^verbatim>\<open>execute\<close> returns normally,
  status=complete and complete are written, and status=error is not.
\<close>

theorem failed_run_effects:
  assumes "body req = Some json"
    and "researchRequestSchema_parse (env_uuid e) json = Some rb"
    and "has_user (env_auth e)"
  shows "(stage_throws e (query rb) m err \<longrightarrow>
            snd (execute e (query rb)) = Inl err
          \<and> last (fst (execute e (query rb))) =
              Write \<lparr>type = ''data-research-status'', data = JStr ''error''\<rparr>
          \<and> invoked (fst (execute e (query rb))) = stages_upto m
          \<and> ''data-research-complete''
              \<notin> set (map type (writes (fst (execute e (query rb)))))
          \<and> \<lparr>type = ''data-research-status'', data = JStr ''complete''\<rparr>
              \<notin> set (writes (fst (execute e (query rb))))
          \<and> fst (POST e req) =
              AuthCall # fst (execute e (query rb)) @ [StreamError onError_text] @
                onFinish e (chatId rb)
                  (finishedMessages e
                     (fst (execute e (query rb)) @ [StreamError onError_text]))
          \<and> (finishedMessages e (fst (execute e (query rb)) @ [StreamError onError_text])
                \<noteq> [] \<longrightarrow>
              list_ex is_SaveMessages (fst (POST e req))))
       \<and> (stream_fails e (query rb) err \<longrightarrow>
            snd (execute e (query rb)) = Inr ()
          \<and> \<lparr>type = ''data-research-status'', data = JStr ''error''\<rparr>
              \<notin> set (writes (fst (execute e (query rb))))
          \<and> drop 7 (writes (fst (execute e (query rb)))) =
              [\<lparr>type = ''data-research-status'', data = JStr ''complete''\<rparr>,
               \<lparr>type = ''data-research-complete'', data = JNull\<rparr>]
          \<and> last (channel (fst (execute e (query rb)))) = ErrorPart onError_text)"
proof (intro conjI impI)
  assume t: "stage_throws e (query rb) m err"
  note x = stage_throws_effects [OF t]
  from x have thrown: "snd (execute e (query rb)) = Inl err" by (rule conjunct1)
  note p = POST_after_throw [OF assms thrown]
  from x show "snd (execute e (query rb)) = Inl err"
    and "last (fst (execute e (query rb))) =
          Write \<lparr>type = ''data-research-status'', data = JStr ''error''\<rparr>"
    and "invoked (fst (execute e (query rb))) = stages_upto m"
    and "''data-research-complete''
          \<notin> set (map type (writes (fst (execute e (query rb)))))"
    and "\<lparr>type = ''data-research-status'', data = JStr ''complete''\<rparr>
          \<notin> set (writes (fst (execute e (query rb))))"
    by blast+
  from p show "fst (POST e req) =
      AuthCall # fst (execute e (query rb)) @ [StreamError onError_text] @
        onFinish e (chatId rb)
          (finishedMessages e (fst (execute e (query rb)) @ [StreamError onError_text]))" .
  assume "finishedMessages e (fst (execute e (query rb)) @ [StreamError onError_text]) \<noteq> []"
  from onFinish_saves [OF this,
      of "AuthCall # fst (execute e (query rb)) @ [StreamError onError_text]" e "chatId rb"]
  show "list_ex is_SaveMessages (fst (POST e req))"
    by (simp add: p)
next
  assume f: "stream_fails e (query rb) err"
  note y = stream_fails_effects [OF f]
  from y show "snd (execute e (query rb)) = Inr ()"
    and "\<lparr>type = ''data-research-status'', data = JStr ''error''\<rparr>
          \<notin> set (writes (fst (execute e (query rb))))"
    and "drop 7 (writes (fst (execute e (query rb)))) =
          [\<lparr>type = ''data-research-status'', data = JStr ''complete''\<rparr>,
           \<lparr>type = ''data-research-complete'', data = JNull\<rparr>]"
    and "last (channel (fst (execute e (query rb)))) = ErrorPart onError_text"
    by blast+
qed

lemma sample_request_body:
  "body sample_request = Some (JObj
        [(''id'', JStr ''123e4567-e89b-12d3-a456-426614174000''),
         (''query'', JStr ''quantum computing breakthroughs''),
         (''chatId'', JStr ''123e4567-e89b-12d3-a456-426614174001'')])"
  by (simp add: sample_request_def)

lemma sample_request_parse:
  "env_uuid e = (\<lambda>s. length s = 36) \<Longrightarrow>
   researchRequestSchema_parse (env_uuid e) (JObj
        [(''id'', JStr ''123e4567-e89b-12d3-a456-426614174000''),
         (''query'', JStr ''quantum computing breakthroughs''),
         (''chatId'', JStr ''123e4567-e89b-12d3-a456-426614174001'')]) =
      Some \<lparr>req_id = ''123e4567-e89b-12d3-a456-426614174000'',
            query = ''quantum computing breakthroughs'',
            chatId = ''123e4567-e89b-12d3-a456-426614174001''\<rparr>"
  by (simp add: researchRequestSchema_parse_def)

theorem failed_run_effects_witness:
  "fst (POST search_fails_env sample_request) =
     [AuthCall,
      Write \<lparr>type = ''data-research-status'', data = JStr ''rewriting-query''\<rparr>,
      Invoke QueryRewriter ''quantum computing breakthroughs'',
      Write \<lparr>type = ''data-research-query-rewritten'',
              data = JStr ''recent quantum computing results''\<rparr>,
      Write \<lparr>type = ''data-research-status'', data = JStr ''searching''\<rparr>,
      Invoke WebSearch ''Research this topic thoroughly: recent quantum computing results'',
      ConsoleError (JsError ''search''),
      Write \<lparr>type = ''data-research-status'', data = JStr ''error''\<rparr>,
      StreamError ''Research failed. Please try again.'',
      SaveMessages
        [\<lparr>db_id = ''m1'', db_chatId = ''123e4567-e89b-12d3-a456-426614174001'',
          db_role = ''assistant'', db_parts = [], db_attachments = [], db_createdAt = 0\<rparr>]]
   \<and> list_ex is_SaveMessages (fst (POST search_fails_env sample_request))
   \<and> snd (execute stream_fails_env ''quantum computing breakthroughs'') = Inr ()
   \<and> drop 7 (writes (fst (execute stream_fails_env ''quantum computing breakthroughs''))) =
       [\<lparr>type = ''data-research-status'', data = JStr ''complete''\<rparr>,
        \<lparr>type = ''data-research-complete'', data = JNull\<rparr>]
   \<and> \<lparr>type = ''data-research-status'', data = JStr ''error''\<rparr>
       \<notin> set (writes (fst (execute stream_fails_env ''quantum computing breakthroughs'')))"
proof -
  have q: "query \<lparr>req_id = ''123e4567-e89b-12d3-a456-426614174000'',
                query = ''quantum computing breakthroughs'',
                chatId = ''123e4567-e89b-12d3-a456-426614174001''\<rparr> =
           ''quantum computing breakthroughs''"
    by simp
  have ps: "researchRequestSchema_parse (env_uuid search_fails_env) (JObj
        [(''id'', JStr ''123e4567-e89b-12d3-a456-426614174000''),
         (''query'', JStr ''quantum computing breakthroughs''),
         (''chatId'', JStr ''123e4567-e89b-12d3-a456-426614174001'')]) =
      Some \<lparr>req_id = ''123e4567-e89b-12d3-a456-426614174000'',
            query = ''quantum computing breakthroughs'',
            chatId = ''123e4567-e89b-12d3-a456-426614174001''\<rparr>"
    by (rule sample_request_parse) (simp add: search_fails_env_def sample_env_def)
  have pf: "researchRequestSchema_parse (env_uuid stream_fails_env) (JObj
        [(''id'', JStr ''123e4567-e89b-12d3-a456-426614174000''),
         (''query'', JStr ''quantum computing breakthroughs''),
         (''chatId'', JStr ''123e4567-e89b-12d3-a456-426614174001'')]) =
      Some \<lparr>req_id = ''123e4567-e89b-12d3-a456-426614174000'',
            query = ''quantum computing breakthroughs'',
            chatId = ''123e4567-e89b-12d3-a456-426614174001''\<rparr>"
    by (rule sample_request_parse) (simp add: stream_fails_env_def sample_env_def)
  have us: "has_user (env_auth search_fails_env)"
    and uf: "has_user (env_auth stream_fails_env)"
    by (simp_all add: has_user_def search_fails_env_def stream_fails_env_def sample_env_def)
  have s: "stage_throws search_fails_env ''quantum computing breakthroughs''
             WebSearch (JsError ''search'')"
    by (simp add: search_fails_env_def sample_env_def)
  have f: "stream_fails stream_fails_env ''quantum computing breakthroughs''
             (JsError ''provider'')"
    by (simp add: stream_fails_def stream_fails_env_def sample_env_def)
  have n: "finishedMessages search_fails_env x \<noteq> []" for x
    by (simp add: search_fails_env_def sample_env_def)
  note ws = failed_run_effects [OF sample_request_body ps us,
      of WebSearch "JsError ''search''", unfolded q]
  note wf = failed_run_effects [OF sample_request_body pf uf,
      of _ "JsError ''provider''", unfolded q]
  from ws s n have sv: "list_ex is_SaveMessages (fst (POST search_fails_env sample_request))"
    by blast
  from wf f have r: "snd (execute stream_fails_env ''quantum computing breakthroughs'') = Inr ()"
    and d: "drop 7 (writes (fst (execute stream_fails_env ''quantum computing breakthroughs'')))
       = [\<lparr>type = ''data-research-status'', data = JStr ''complete''\<rparr>,
          \<lparr>type = ''data-research-complete'', data = JNull\<rparr>]"
    and ne: "\<lparr>type = ''data-research-status'', data = JStr ''error''\<rparr>
       \<notin> set (writes (fst (execute stream_fails_env ''quantum computing breakthroughs'')))"
    by blast+
  have ex: "fst (execute search_fails_env ''quantum computing breakthroughs'') =
     [Write \<lparr>type = ''data-research-status'', data = JStr ''rewriting-query''\<rparr>,
      Invoke QueryRewriter ''quantum computing breakthroughs'',
      Write \<lparr>type = ''data-research-query-rewritten'',
              data = JStr ''recent quantum computing results''\<rparr>,
      Write \<lparr>type = ''data-research-status'', data = JStr ''searching''\<rparr>,
      Invoke WebSearch ''Research this topic thoroughly: recent quantum computing results'',
      ConsoleError (JsError ''search''),
      Write \<lparr>type = ''data-research-status'', data = JStr ''error''\<rparr>]"
    by (simp add: execute_def try_block_def search_fails_env_def sample_env_def
          status_part_def prompts_webSearch_def)
  have o: "onFinish search_fails_env ''123e4567-e89b-12d3-a456-426614174001''
          (finishedMessages search_fails_env x) =
      [SaveMessages
        [\<lparr>db_id = ''m1'', db_chatId = ''123e4567-e89b-12d3-a456-426614174001'',
          db_role = ''assistant'', db_parts = [], db_attachments = [], db_createdAt = 0\<rparr>]]"
    for x
    by (simp add: onFinish_def search_fails_env_def sample_env_def)
  from ws s have "fst (POST search_fails_env sample_request) =
      AuthCall # fst (execute search_fails_env ''quantum computing breakthroughs'') @
        [StreamError onError_text] @
        onFinish search_fails_env
          (chatId \<lparr>req_id = ''123e4567-e89b-12d3-a456-426614174000'',
                query = ''quantum computing breakthroughs'',
                chatId = ''123e4567-e89b-12d3-a456-426614174001''\<rparr>)
          (finishedMessages search_fails_env
             (fst (execute search_fails_env ''quantum computing breakthroughs'') @
              [StreamError onError_text]))"
    by blast
  then have t: "fst (POST search_fails_env sample_request) =
     [AuthCall,
      Write \<lparr>type = ''data-research-status'', data = JStr ''rewriting-query''\<rparr>,
      Invoke QueryRewriter ''quantum computing breakthroughs'',
      Write \<lparr>type = ''data-research-query-rewritten'',
              data = JStr ''recent quantum computing results''\<rparr>,
      Write \<lparr>type = ''data-research-status'', data = JStr ''searching''\<rparr>,
      Invoke WebSearch ''Research this topic thoroughly: recent quantum computing results'',
      ConsoleError (JsError ''search''),
      Write \<lparr>type = ''data-research-status'', data = JStr ''error''\<rparr>,
      StreamError ''Research failed. Please try again.'',
      SaveMessages
        [\<lparr>db_id = ''m1'', db_chatId = ''123e4567-e89b-12d3-a456-426614174001'',
          db_role = ''assistant'', db_parts = [], db_attachments = [], db_createdAt = 0\<rparr>]]"
    by (simp add: ex o onError_text_def)
  from t sv r d ne show ?thesis by (intro conjI)
qed

lemma invalid_request_not_valid: "\<not> valid_body (\<lambda>s. length s = 36) (body invalid_request)"
  by (simp add: valid_body_def invalid_request_def)

lemma sample_request_valid: "valid_body (\<lambda>s. length s = 36) (body sample_request)"
  by (simp add: valid_body_def sample_request_def)

text \<open>
  Claim C6, as stated, promises HTTP 401 to every caller without a session. A caller
  without a session whose body is invalid (here: an empty query) is answered 400.
\<close>

theorem unauthenticated_invalid_counterexample:
  "\<not> has_user (env_auth anonymous_env)
   \<and> POST anonymous_env invalid_request = ([], ErrorResponse 400 ''bad_request:api'')
   \<and> snd (POST anonymous_env invalid_request) \<noteq> ErrorResponse 401 ''unauthorized:chat''"
  by (simp add: POST_def invalid_request_def anonymous_env_def sample_env_def has_user_def
        researchRequestSchema_parse_def)

text \<open>
  Claim C6, amended. A body that fails validation is answered with HTTP 400 and the error
  code; a body that passes validation from a caller without a session is answered with
  HTTP 401. In both cases no model is invoked, nothing is written to a stream and the
  response is not a stream.
\<close>

theorem rejected_requests:
  "(\<not> valid_body (env_uuid e) (body req) \<longrightarrow>
      POST e req = ([], ErrorResponse 400 ''bad_request:api''))
   \<and> (valid_body (env_uuid e) (body req) \<and> \<not> has_user (env_auth e) \<longrightarrow>
      POST e req = ([AuthCall], ErrorResponse 401 ''unauthorized:chat''))
   \<and> (\<not> valid_body (env_uuid e) (body req) \<or> \<not> has_user (env_auth e) \<longrightarrow>
      invoked (fst (POST e req)) = [] \<and> writes (fst (POST e req)) = []
      \<and> snd (POST e req) \<noteq> StreamResponse)"
proof (intro conjI impI)
  assume "\<not> valid_body (env_uuid e) (body req)"
  then show "POST e req = ([], ErrorResponse 400 ''bad_request:api'')"
    by (rule POST_invalid)
next
  assume "valid_body (env_uuid e) (body req) \<and> \<not> has_user (env_auth e)"
  then show "POST e req = ([AuthCall], ErrorResponse 401 ''unauthorized:chat'')"
    by (simp add: POST_anonymous)
next
  assume a: "\<not> valid_body (env_uuid e) (body req) \<or> \<not> has_user (env_auth e)"
  have "POST e req = ([], ErrorResponse 400 ''bad_request:api'')
      \<or> POST e req = ([AuthCall], ErrorResponse 401 ''unauthorized:chat'')"
    using a POST_invalid [of e req] POST_anonymous [of e req] by blast
  then have "invoked (fst (POST e req)) = [] \<and> writes (fst (POST e req)) = []
      \<and> snd (POST e req) \<noteq> StreamResponse"
    by auto
  then show "invoked (fst (POST e req)) = []" and "writes (fst (POST e req)) = []"
    and "snd (POST e req) \<noteq> StreamResponse"
    by simp_all
qed

theorem rejected_requests_witness:
  "POST sample_env invalid_request = ([], ErrorResponse 400 ''bad_request:api'')
   \<and> POST anonymous_env sample_request = ([AuthCall], ErrorResponse 401 ''unauthorized:chat'')
   \<and> invoked (fst (POST anonymous_env sample_request)) = []"
proof -
  have u: "env_uuid sample_env = (\<lambda>s. length s = 36)"
    and u': "env_uuid anonymous_env = (\<lambda>s. length s = 36)"
    and n: "\<not> has_user (env_auth anonymous_env)"
    by (simp_all add: sample_env_def anonymous_env_def has_user_def)
  have i: "\<not> valid_body (env_uuid sample_env) (body invalid_request)"
    by (simp only: u invalid_request_not_valid not_False_eq_True)
  have v: "valid_body (env_uuid anonymous_env) (body sample_request)"
    by (simp only: u' sample_request_valid)
  from rejected_requests [of sample_env invalid_request] i
  have a: "POST sample_env invalid_request = ([], ErrorResponse 400 ''bad_request:api'')"
    by blast
  from rejected_requests [of anonymous_env sample_request] v n
  have b: "POST anonymous_env sample_request =
             ([AuthCall], ErrorResponse 401 ''unauthorized:chat'')"
    and c: "invoked (fst (POST anonymous_env sample_request)) = []"
    by blast+
  from a b c show ?thesis by (intro conjI)
qed

text \<open>
  Claim C9. Validation comes before authentication: a body that fails the schema is
  answered with HTTP 400 without \<^verbatim>\<open>auth()\<close> being called, whatever the session is, so a
  caller without a session who sends an invalid body receives 400 and not 401.
\<close>

theorem validation_before_auth:
  "\<not> valid_body (env_uuid e) (body req) \<Longrightarrow>
     POST e req = ([], ErrorResponse 400 ''bad_request:api'')
     \<and> AuthCall \<notin> set (fst (POST e req))
     \<and> POST (e\<lparr>env_auth := a\<rparr>) req = POST e req
     \<and> snd (POST (e\<lparr>env_auth := None\<rparr>) req) = ErrorResponse 400 ''bad_request:api''"
proof -
  assume i: "\<not> valid_body (env_uuid e) (body req)"
  then have p: "POST e req = ([], ErrorResponse 400 ''bad_request:api'')"
    by (rule POST_invalid)
  from i have "\<not> valid_body (env_uuid (e\<lparr>env_auth := x\<rparr>)) (body req)" for x
    by simp
  then have q: "POST (e\<lparr>env_auth := x\<rparr>) req = ([], ErrorResponse 400 ''bad_request:api'')" for x
    by (rule POST_invalid)
  from p q [of a] q [of None] show ?thesis by simp
qed

theorem validation_before_auth_witness:
  "\<not> valid_body (env_uuid anonymous_env) (body invalid_request)
   \<and> env_auth anonymous_env = None
   \<and> POST anonymous_env invalid_request = ([], ErrorResponse 400 ''bad_request:api'')
   \<and> AuthCall \<notin> set (fst (POST anonymous_env invalid_request))"
proof -
  have u: "env_uuid anonymous_env = (\<lambda>s. length s = 36)"
    and n: "env_auth anonymous_env = None"
    by (simp_all add: sample_env_def anonymous_env_def)
  have i: "\<not> valid_body (env_uuid anonymous_env) (body invalid_request)"
    by (simp only: u invalid_request_not_valid not_False_eq_True)
  from validation_before_auth [OF i, of None] i n show ?thesis by blast
qed

end
